theory Spec2Isabelle
  imports Complex_Main
begin

section \<open>Configuration (config.py)\<close>

text \<open>
  The constants of \<^verbatim>\<open>CONFIG\<close>, \<^verbatim>\<open>NUMERIC_COLUMNS\<close>, \<^verbatim>\<open>PERCENTILE_COLUMNS\<close> and
  \<^verbatim>\<open>TEXTS\<close> that the renderer and the ingestion stage read. Python floats are modelled
  by the reals (arithmetic is exact, no rounding); the float value NaN, which pandas
  uses for a missing cell, is \<open>None\<close>.
\<close>

definition MIN_BAR_HEIGHT :: real where "MIN_BAR_HEIGHT = 2 / 10"
definition MAX_BAR_HEIGHT :: real where "MAX_BAR_HEIGHT = 6 / 10"
definition LEFT_MARGIN :: real where "LEFT_MARGIN = 40"
definition RIGHT_MARGIN :: real where "RIGHT_MARGIN = 40"
definition MIN_EPISODIOS :: real where "MIN_EPISODIOS = 1"
definition MAX_EPISODIOS :: real where "MAX_EPISODIOS = 1000"

text \<open>Column labels. The label of the diagnosis column and some texts hold accented
  letters, written here as their UTF-8 bytes.\<close>

definition o_acute :: string where "o_acute = [CHR 0xC3, CHR 0xB3]"
definition Diagnostico :: string where "Diagnostico = ''Diagn'' @ o_acute @ ''stico''"
definition Caso :: string where "Caso = ''Caso''"
definition Cod_Genero :: string where "Cod_Genero = ''Cod Genero''"
definition Gr_Edad_10 :: string where "Gr_Edad_10 = ''Gr Edad 10''"
definition Count_Episodios :: string where "Count_Episodios = ''Count Episodios''"
definition Durestd_Inss_min :: string where "Durestd_Inss_min = ''Durestd Inss min''"
definition Duropt_Inss_min :: string where "Duropt_Inss_min = ''Duropt Inss min''"
definition P60min :: string where "P60min = ''P60min''"
definition percentiles_iguales :: string where "percentiles_iguales = ''percentiles_iguales''"
definition diferencia_estandar :: string where "diferencia_estandar = ''diferencia_estandar''"
definition diferencia_optima :: string where "diferencia_optima = ''diferencia_optima''"

definition PERCENTILE_COLUMNS :: "string list" where
  "PERCENTILE_COLUMNS = [''Minmin'', ''P20min'', ''P40min'', ''P60min'', ''P80min'', ''P99min'']"

definition NUMERIC_COLUMNS :: "string list" where
  "NUMERIC_COLUMNS = [''Durestd Inss min'', ''Duropt Inss min'', ''Minmin'', ''P20min'',
     ''P40min'', ''P60min'', ''P80min'', ''P99min'', ''Count Episodios'']"

definition EDAD_ORDEN :: "string list" where
  "EDAD_ORDEN = [''16-25'', ''26-35'', ''36-45'', ''46-55'', ''56-65'']"

definition no_variation :: string where "no_variation = ''sin variaci'' @ o_acute @ ''n''"

section \<open>Data model: pandas frames and rows\<close>

text \<open>
  A frame has its column labels and one entry per row. The cells of a row are typed by
  the way the program reads them: numeric cells (a float or NaN), text cells (a string,
  or missing) and boolean cells. A cell is only ever read under a label of the frame;
  \<open>row_num\<close> below makes the \<^verbatim>\<open>KeyError\<close> of a read under any other label explicit.
  A row handed to a helper (a pandas Series produced by \<^verbatim>\<open>df.iterrows()\<close>) carries the
  labels of its frame as its index.
\<close>

record cells =
  num :: "string \<Rightarrow> real option"
  str :: "string \<Rightarrow> string option"
  flag :: "string \<Rightarrow> bool"

record data_frame =
  columns :: "string list"
  rows :: "cells list"

record series =
  index :: "string list"
  vals :: cells

datatype error = KeyError string | IndexError | ValueError

definition iterrows :: "data_frame \<Rightarrow> series list" where
  "iterrows df = map (\<lambda>r. \<lparr>index = columns df, vals = r\<rparr>) (rows df)"

definition row_num :: "series \<Rightarrow> string \<Rightarrow> error + real option" where
  "row_num row col = (if col \<in> set (index row) then Inr (num (vals row) col) else Inl (KeyError col))"

text \<open>Building rows from association lists, for concrete inputs.\<close>

definition mk_cells :: "(string \<times> real) list \<Rightarrow> (string \<times> string) list \<Rightarrow> (string \<times> bool) list \<Rightarrow> cells" where
  "mk_cells ns ts bs =
     \<lparr>num = map_of ns, str = map_of ts, flag = (\<lambda>c. map_of bs c = Some True)\<rparr>"

section \<open>NaN-aware arithmetic and reductions\<close>

fun dropna :: "'a option list \<Rightarrow> 'a list" where
  "dropna [] = []"
| "dropna (None # xs) = dropna xs"
| "dropna (Some x # xs) = x # dropna xs"

text \<open>\<^verbatim>\<open>Series.max()\<close> and \<^verbatim>\<open>Series.min()\<close> skip NaN and yield NaN when nothing is left.\<close>

definition nanmax :: "real option list \<Rightarrow> real option" where
  "nanmax xs = (case dropna xs of [] \<Rightarrow> None | y # ys \<Rightarrow> Some (fold max ys y))"

definition nanmin :: "real option list \<Rightarrow> real option" where
  "nanmin xs = (case dropna xs of [] \<Rightarrow> None | y # ys \<Rightarrow> Some (fold min ys y))"

text \<open>A binary float operation yields NaN as soon as one operand is NaN.\<close>

definition nan2 :: "(real \<Rightarrow> real \<Rightarrow> real) \<Rightarrow> real option \<Rightarrow> real option \<Rightarrow> real option" where
  "nan2 f a b = (case a of None \<Rightarrow> None | Some x \<Rightarrow> (case b of None \<Rightarrow> None | Some y \<Rightarrow> Some (f x y)))"

section \<open>Row heights (\<^verbatim>\<open>_calculate_bar_heights\<close>)\<close>

text \<open>\<^verbatim>\<open>df[col]\<close> for a numeric column: the cells of the column, in row order.\<close>

definition column_num :: "data_frame \<Rightarrow> string \<Rightarrow> real option list" where
  "column_num df col = map (\<lambda>r. num r col) (rows df)"

definition mid_height :: real where
  "mid_height = (MIN_BAR_HEIGHT + MAX_BAR_HEIGHT) / 2"

text \<open>
  \<^verbatim>\<open>range_counts == 0\<close> is false when the range is NaN (no count present), so that case
  falls through to the scaling branch, where every height is NaN.
\<close>

definition calculate_bar_heights :: "data_frame \<Rightarrow> real option list" where
  "calculate_bar_heights df =
     (if Count_Episodios \<notin> set (columns df)
      then replicate (length (rows df)) (Some mid_height)
      else
        let counts = column_num df Count_Episodios;
            range_counts = nan2 (-) (nanmax counts) (nanmin counts)
        in if range_counts = Some 0
           then replicate (length counts) (Some mid_height)
           else map (\<lambda>c. nan2 (+) (Some MIN_BAR_HEIGHT)
                          (nan2 (*) (nan2 (/) (nan2 (-) c (nanmin counts)) range_counts)
                                    (Some (MAX_BAR_HEIGHT - MIN_BAR_HEIGHT)))) counts)"

section \<open>Draw instructions\<close>

text \<open>
  The calls the renderer makes on the matplotlib axes, in the order it makes them, with
  the arguments it passes. A colour is a named colour of \<^verbatim>\<open>CONFIG['COLORS']\<close> or the
  RGBA value a colormap returns. Vertical positions are row slots (\<open>nat\<close>) or reals.
  Every \<^verbatim>\<open>ax.text\<close> call of the source passes \<^verbatim>\<open>va='center', fontsize=7\<close>; the
  instruction records the arguments that vary. Of what matplotlib does with the values
  it is handed the model keeps one thing: \<^verbatim>\<open>ax.set_xlim\<close> refuses a limit that is NaN with a
  \<^verbatim>\<open>ValueError\<close>, so a recorded \<open>SetXlim\<close> carries two numbers.
\<close>

datatype color = Named string | RGBA real real real real

definition light_gray :: color where "light_gray = Named ''lightgray''"
definition dark_gray :: color where "dark_gray = Named ''dimgray''"
definition blue :: color where "blue = Named ''blue''"
definition black :: color where "black = Named ''black''"

datatype legend_handle =
    Patch color string
  | Line2D_line color string
  | Line2D_marker color string

datatype instr =
    SetXlim real real
  | Barh nat real real "real option" color
  | Text "real option" nat string "string option" "color option"
  | PlotLine real "real option" "real option" color real
  | PlotPoint real nat color real
  | InvertYaxis
  | Axhspan real real color real
  | Axhline real color real
  | SetYticks
  | SetXlabel string
  | SetTitle string
  | Grid real
  | SetAxisbelow
  | Legend "legend_handle list"
  | TightLayout

text \<open>
  \<open>Barh y width left height color\<close> is \<^verbatim>\<open>ax.barh(y, width, left=left, height=height,
  color=color)\<close>: a rectangle from \<open>x0 = left\<close> to \<open>x1 = left + width\<close>.
  \<open>Text x y s ha color\<close> is \<^verbatim>\<open>ax.text(x, y, s, ha=ha, color=color)\<close>.
  \<open>PlotLine x y0 y1 color linewidth\<close> is \<^verbatim>\<open>ax.plot([x]*2, [y0, y1], ...)\<close>, a vertical line;
  \<open>PlotPoint x y color markersize\<close> is \<^verbatim>\<open>ax.plot(x, y, 'o', ...)\<close>.
  \<open>Axhspan y0 y1 color alpha\<close> and \<open>Axhline y color linewidth\<close> are the band and the
  dashed separator.
\<close>

fun rect_x0 :: "instr \<Rightarrow> real" where
  "rect_x0 (Barh y w l h c) = l"
| "rect_x0 _ = 0"

fun rect_x1 :: "instr \<Rightarrow> real" where
  "rect_x1 (Barh y w l h c) = l + w"
| "rect_x1 _ = 0"

fun is_rect :: "instr \<Rightarrow> bool" where
  "is_rect (Barh y w l h c) = True"
| "is_rect _ = False"

fun is_line :: "instr \<Rightarrow> bool" where
  "is_line (PlotLine x y0 y1 c w) = True"
| "is_line _ = False"

fun is_point :: "instr \<Rightarrow> bool" where
  "is_point (PlotPoint x y c m) = True"
| "is_point _ = False"

fun is_band :: "instr \<Rightarrow> bool" where
  "is_band (Axhspan y0 y1 c a) = True"
| "is_band _ = False"

section \<open>Percentile segments (\<^verbatim>\<open>_create_percentile_bars\<close>)\<close>

text \<open>
  \<^verbatim>\<open>[row[col] for col in available_cols if pd.notna(row[col])]\<close>: the present values in
  column order; the first label that the row does not have raises \<^verbatim>\<open>KeyError\<close>.
\<close>

fun present_values :: "series \<Rightarrow> string list \<Rightarrow> error + real list" where
  "present_values row [] = Inr []"
| "present_values row (col # cols) =
     (case row_num row col of
        Inl e \<Rightarrow> Inl e
      | Inr v \<Rightarrow>
          (case present_values row cols of
             Inl e \<Rightarrow> Inl e
           | Inr vs \<Rightarrow> Inr (case v of None \<Rightarrow> vs | Some x \<Rightarrow> x # vs)))"

text \<open>Python's \<^verbatim>\<open>min\<close> and \<^verbatim>\<open>max\<close> of a list; the program calls them on a list of at
  least two values only.\<close>

definition py_min :: "real list \<Rightarrow> real" where
  "py_min xs = fold min (tl xs) (hd xs)"

definition py_max :: "real list \<Rightarrow> real" where
  "py_max xs = fold max (tl xs) (hd xs)"

text \<open>
  Modelled from the spec: \<^verbatim>\<open>matplotlib.colors.Normalize\<close> is a library class, not part of
  the sources. Section 4.2 gives \<open>norm(v) = (v - local_min) / (local_max - local_min)\<close>;
  for an interval of one point the library returns 0.
\<close>

definition Normalize :: "real \<Rightarrow> real \<Rightarrow> real \<Rightarrow> real" where
  "Normalize vmin vmax v = (if vmin = vmax then 0 else (v - vmin) / (vmax - vmin))"

text \<open>\<^verbatim>\<open>hasattr(row, 'percentiles_iguales') and row.percentiles_iguales\<close>.\<close>

definition no_variation_flag :: "series \<Rightarrow> bool" where
  "no_variation_flag row =
     (percentiles_iguales \<in> set (index row) \<and> flag (vals row) percentiles_iguales)"

text \<open>
  The body of the loop \<^verbatim>\<open>for i in range(len(percentiles)-1)\<close>. The loop's
  \<^verbatim>\<open>pd.notna\<close> test on both values always holds, the list holding present values only.
\<close>

definition segment :: "nat \<Rightarrow> real option \<Rightarrow> (real \<Rightarrow> color) \<Rightarrow> real list \<Rightarrow> nat \<Rightarrow> instr list" where
  "segment idx height cmap percentiles i =
     (let color = cmap (Normalize (py_min percentiles) (py_max percentiles)
                          ((percentiles ! i + percentiles ! (i + 1)) / 2));
          width = percentiles ! (i + 1) - percentiles ! i
      in if width > 0 then [Barh idx width (percentiles ! i) height color] else [])"

definition create_percentile_bars ::
  "series \<Rightarrow> nat \<Rightarrow> real option \<Rightarrow> (real \<Rightarrow> color) \<Rightarrow> string list \<Rightarrow> error + instr list" where
  "create_percentile_bars row idx height cmap available_cols =
     (case present_values row available_cols of
        Inl e \<Rightarrow> Inl e
      | Inr percentiles \<Rightarrow>
          if length percentiles < 2 then Inr []
          else if no_variation_flag row then
            Inr [Barh idx 1 (percentiles ! 0 - 0.5) height light_gray,
                 Text (Some (percentiles ! 0 + 1)) idx no_variation None (Some dark_gray)]
          else
            Inr (concat (map (segment idx height cmap percentiles)
                             [0 ..< length percentiles - 1])))"

section \<open>Reference markers (\<^verbatim>\<open>_add_inss_lines\<close>)\<close>

definition add_inss_lines :: "series \<Rightarrow> nat \<Rightarrow> real option \<Rightarrow> instr list" where
  "add_inss_lines row idx height =
     (if Durestd_Inss_min \<in> set (index row)
      then (case num (vals row) Durestd_Inss_min of
              None \<Rightarrow> []
            | Some x \<Rightarrow>
                [PlotLine x (nan2 (-) (Some (real idx)) (nan2 (/) height (Some 2)))
                            (nan2 (+) (Some (real idx)) (nan2 (/) height (Some 2))) black 1.4])
      else []) @
     (if Duropt_Inss_min \<in> set (index row)
      then (case num (vals row) Duropt_Inss_min of
              None \<Rightarrow> []
            | Some x \<Rightarrow> [PlotPoint x idx blue 6])
      else [])"

section \<open>Row labels (\<^verbatim>\<open>_add_labels\<close>)\<close>

text \<open>Python's \<^verbatim>\<open>str\<close> of a text cell (a missing cell prints as \<^verbatim>\<open>nan\<close>), \<^verbatim>\<open>int\<close> of a
  float (truncation towards zero) and the decimal form of an integer.\<close>

definition py_str :: "string option \<Rightarrow> string" where
  "py_str c = (case c of None \<Rightarrow> ''nan'' | Some s \<Rightarrow> s)"

definition py_int :: "real \<Rightarrow> int" where
  "py_int x = (if 0 \<le> x then \<lfloor>x\<rfloor> else \<lceil>x\<rceil>)"

fun str_nat :: "nat \<Rightarrow> string" where
  "str_nat n = (if n < 10 then [char_of (48 + n)] else str_nat (n div 10) @ [char_of (48 + n mod 10)])"

definition str_int :: "int \<Rightarrow> string" where
  "str_int i = (if i < 0 then CHR ''-'' # str_nat (nat (- i)) else str_nat (nat i))"

definition add_labels ::
  "series \<Rightarrow> nat \<Rightarrow> real option \<Rightarrow> real option \<Rightarrow> real \<Rightarrow> real \<Rightarrow> instr list" where
  "add_labels row idx x_min x_max left_margin right_margin =
     (if Diagnostico \<in> set (index row)
      then [Text (nan2 (+) (nan2 (-) x_min (Some left_margin)) (Some 2)) idx
                 (py_str (str (vals row) Diagnostico)) (Some ''right'') None]
      else []) @
     (let caso_text0 = (if Caso \<in> set (index row) then py_str (str (vals row) Caso) else []);
          caso_text =
            (if Count_Episodios \<in> set (index row)
             then (case num (vals row) Count_Episodios of
                     None \<Rightarrow> caso_text0
                   | Some n \<Rightarrow>
                       caso_text0 @
                         (if caso_text0 \<noteq> [] then '' ('' @ str_int (py_int n) @ '')''
                          else ''('' @ str_int (py_int n) @ '')''))
             else caso_text0)
      in if caso_text \<noteq> [] then [Text (nan2 (+) x_max (Some 5)) idx caso_text (Some ''left'') None]
         else [])"

section \<open>Group bands (\<^verbatim>\<open>_add_diagnosis_shading\<close>)\<close>

text \<open>
  \<^verbatim>\<open>labels.shift()\<close> moves every label one row down and puts a missing value first;
  \<^verbatim>\<open>labels.ne(...)\<close> is the elementwise \<open>\<noteq>\<close> of pandas, under which a missing value
  differs from everything; \<^verbatim>\<open>cumsum\<close> gives the running sums.
  \<^verbatim>\<open>df.groupby(bounds).size()\<close> has one entry per distinct key, in ascending key order:
  the number of rows with that key.
\<close>

definition shift :: "'a option list \<Rightarrow> 'a option list" where
  "shift xs = (if xs = [] then [] else None # butlast xs)"

definition ne :: "'a option \<Rightarrow> 'a option \<Rightarrow> bool" where
  "ne a b = (a = None \<or> b = None \<or> a \<noteq> b)"

fun cumsum_from :: "int \<Rightarrow> int list \<Rightarrow> int list" where
  "cumsum_from acc [] = []"
| "cumsum_from acc (x # xs) = (acc + x) # cumsum_from (acc + x) xs"

definition cumsum :: "int list \<Rightarrow> int list" where
  "cumsum xs = cumsum_from 0 xs"

definition groupby_size :: "int list \<Rightarrow> int list" where
  "groupby_size keys = map (\<lambda>k. int (count_list keys k)) (sort (remdups keys))"

definition diagnosis_bounds :: "string option list \<Rightarrow> (int \<times> int) list" where
  "diagnosis_bounds labels =
     (let bounds = cumsum (map (\<lambda>(a, b). if ne a b then 1 else 0) (zip labels (shift labels)));
          sizes = groupby_size bounds;
          starts = map (\<lambda>(c, s). c - s) (zip (cumsum sizes) sizes);
          ends = cumsum sizes
      in zip starts ends)"

definition shade :: "nat \<times> int \<times> int \<Rightarrow> instr list" where
  "shade t =
     (case t of (i, start, stop) \<Rightarrow>
        [Axhspan (real_of_int start - 0.2) (real_of_int stop - 0.2)
                 (if i mod 2 = 0 then light_gray else Named ''white'') 0.2] @
        (if i \<noteq> 0 then [Axhline (real_of_int start - 0.2) (Named ''gray'') 0.6] else []))"

text \<open>\<^verbatim>\<open>df[col]\<close> for a text column.\<close>

definition column_str :: "data_frame \<Rightarrow> string \<Rightarrow> string option list" where
  "column_str df col = map (\<lambda>r. str r col) (rows df)"

definition add_diagnosis_shading :: "data_frame \<Rightarrow> instr list" where
  "add_diagnosis_shading df =
     (if Diagnostico \<notin> set (columns df) then []
      else concat (map shade (enumerate 0 (diagnosis_bounds (column_str df Diagnostico)))))"

section \<open>Axes decoration and legend (\<^verbatim>\<open>_customize_chart\<close>, \<^verbatim>\<open>_add_legend\<close>)\<close>

definition a_acute :: string where "a_acute = [CHR 0xC3, CHR 0xA1]"
definition i_acute :: string where "i_acute = [CHR 0xC3, CHR 0xAD]"
definition ord_masc :: string where "ord_masc = [CHR 0xC2, CHR 0xBA]"

definition xlabel :: string where
  "xlabel = ''Duraci'' @ o_acute @ ''n (d'' @ i_acute @ ''as)''"

definition main_title :: string where
  "main_title = ''Comparativa INSS vs Historial Mutua''"

definition subtitle :: string where
  "subtitle = Diagnostico @ '' a izquierda, caso + n'' @ ord_masc @ '' episodios a derecha''"

definition customize_chart :: "instr list" where
  "customize_chart =
     [SetYticks, SetXlabel xlabel, SetTitle (main_title @ [CHR 0x0A] @ subtitle),
      Grid 0.3, SetAxisbelow]"

definition add_legend :: "(real \<Rightarrow> color) \<Rightarrow> instr list" where
  "add_legend cmap =
     [Legend
       [Patch (cmap 0.0) ''Min'', Patch (cmap 0.2) ''P20'', Patch (cmap 0.4) ''P40'',
        Patch (cmap 0.6) ''P60'', Patch (cmap 0.8) ''P80'', Patch (cmap 1.0) ''P99'',
        Patch light_gray (''Distribuci'' @ o_acute @ ''n constante''),
        Line2D_line black (''Duraci'' @ o_acute @ ''n est'' @ a_acute @ ''ndar INSS''),
        Line2D_marker blue (''Duraci'' @ o_acute @ ''n '' @ o_acute @ ''ptima INSS'')]]"

section \<open>The chart (\<^verbatim>\<open>create_comparative_chart\<close>)\<close>

text \<open>
  The function returns a figure or \<^verbatim>\<open>None\<close>. \<open>EmptyInput\<close> is the return after
  \<^verbatim>\<open>st.warning("No hay datos para visualizar")\<close>, \<open>MissingDomainColumns\<close> the return
  after \<^verbatim>\<open>st.error("No se encontraron columnas de percentiles")\<close>, \<open>Failed e\<close> the return of
  the \<^verbatim>\<open>except Exception\<close> handler. Beside the outcome the model gives the calls made on
  the axes up to the return. The colormap the source looks up by name is a parameter.
  When no percentile cell of the frame holds a number, \<^verbatim>\<open>x_min\<close> and \<^verbatim>\<open>x_max\<close> are NaN,
  \<^verbatim>\<open>ax.set_xlim\<close> raises \<^verbatim>\<open>ValueError\<close> before anything is drawn, and the handler returns
  \<^verbatim>\<open>None\<close>.
\<close>

datatype outcome = Figure | EmptyInput | MissingDomainColumns | Failed error

definition percentile_cols :: "string list" where
  "percentile_cols = [''Minmin'', ''P20min'', ''P40min'', ''P60min'', ''P80min'', ''P99min'']"

text \<open>The loop over \<^verbatim>\<open>enumerate(df.iterrows())\<close>; an exception ends it, keeping what was
  drawn before.\<close>

fun emit_rows ::
  "(real \<Rightarrow> color) \<Rightarrow> string list \<Rightarrow> real option list \<Rightarrow> real option \<Rightarrow> real option \<Rightarrow>
   (nat \<times> series) list \<Rightarrow> error option \<times> instr list" where
  "emit_rows cmap available_cols heights x_min x_max [] = (None, [])"
| "emit_rows cmap available_cols heights x_min x_max ((idx, row) # rest) =
     (if length heights \<le> idx then (Some IndexError, [])
      else
        (case create_percentile_bars row idx (heights ! idx) cmap available_cols of
           Inl e \<Rightarrow> (Some e, [])
         | Inr bars \<Rightarrow>
             (case emit_rows cmap available_cols heights x_min x_max rest of
                (err, later) \<Rightarrow>
                  (err, bars @ add_inss_lines row idx (heights ! idx) @
                        add_labels row idx x_min x_max LEFT_MARGIN RIGHT_MARGIN @ later))))"

definition create_comparative_chart :: "(real \<Rightarrow> color) \<Rightarrow> data_frame \<Rightarrow> outcome \<times> instr list" where
  "create_comparative_chart cmap df =
     (if rows df = [] \<or> columns df = [] then (EmptyInput, [])
      else
        let available_cols = filter (\<lambda>col. col \<in> set (columns df)) percentile_cols
        in if available_cols = [] then (MissingDomainColumns, [])
           else
             let x_min = nanmin (map (\<lambda>col. nanmin (column_num df col)) available_cols);
                 x_max = nanmax (map (\<lambda>col. nanmax (column_num df col)) available_cols)
             in (case nan2 (-) x_min (Some LEFT_MARGIN) of
                   None \<Rightarrow> (Failed ValueError, [])
                 | Some left \<Rightarrow>
                     (case nan2 (+) x_max (Some RIGHT_MARGIN) of
                        None \<Rightarrow> (Failed ValueError, [])
                      | Some right \<Rightarrow>
                          (case emit_rows cmap available_cols (calculate_bar_heights df) x_min x_max
                                  (enumerate 0 (iterrows df)) of
                             (Some e, drawn) \<Rightarrow> (Failed e, SetXlim left right # drawn)
                           | (None, drawn) \<Rightarrow>
                               (Figure, SetXlim left right # drawn @ [InvertYaxis] @
                                        add_diagnosis_shading df @ customize_chart @
                                        add_legend cmap @ [TightLayout])))))"

section \<open>Ingestion (\<^verbatim>\<open>data_processor.py\<close>)\<close>

text \<open>
  The argument of \<open>load_and_process_data\<close> is the frame \<^verbatim>\<open>pd.read_excel\<close> delivered. A
  numeric cell of the model is the value \<^verbatim>\<open>pd.to_numeric(..., errors='coerce')\<close> gives
  for the cell of the sheet (a float, or NaN for whatever is not a number), so the
  conversion loop of \<^verbatim>\<open>_clean_data\<close> changes nothing in the model. Renaming assumes that
  the sheet has no column already carrying one of the new names.
\<close>

definition COLUMN_MAPPING :: "(string \<times> string) list" where
  "COLUMN_MAPPING =
     [(''Des Cie9 3dig'', Diagnostico), (''Gr Ocupac'', ''Gr Ocupac''),
      (''Cod Genero'', ''Cod Genero''), (''Gr Edad 10'', ''Gr Edad 10''),
      (''CASO'', ''Caso''), (''Count (Id Episodio)'', ''Count Episodios''),
      (''Durestd Inss min'', ''Durestd Inss min''), (''Duropt Inss min'', ''Duropt Inss min''),
      (''Minmin'', ''Minmin''), (''P20min'', ''P20min''), (''P40min'', ''P40min''),
      (''P60min'', ''P60min''), (''P80min'', ''P80min''), (''P99min'', ''P99min'')]"

datatype load_error = MissingColumns "string list" | ProcessingError error

definition missing_columns :: "data_frame \<Rightarrow> string list" where
  "missing_columns df = filter (\<lambda>c. c \<notin> set (columns df)) (map fst COLUMN_MAPPING)"

definition validate_columns :: "data_frame \<Rightarrow> bool" where
  "validate_columns df = (missing_columns df = [])"

definition rename_label :: "string \<Rightarrow> string" where
  "rename_label c = (case map_of COLUMN_MAPPING c of Some n \<Rightarrow> n | None \<Rightarrow> c)"

definition source_label :: "string \<Rightarrow> string" where
  "source_label c = (case map_of (map (\<lambda>(a, b). (b, a)) COLUMN_MAPPING) c of Some a \<Rightarrow> a | None \<Rightarrow> c)"

text \<open>The cells of a row under the new labels: the cell under a new label is the cell the
  sheet has under the label it comes from.\<close>

definition rename_cells :: "cells \<Rightarrow> cells" where
  "rename_cells r =
     \<lparr>num = (\<lambda>c. num r (source_label c)),
      str = (\<lambda>c. str r (source_label c)),
      flag = (\<lambda>c. flag r (source_label c))\<rparr>"

definition rename_columns :: "data_frame \<Rightarrow> data_frame" where
  "rename_columns df =
     \<lparr>columns = map rename_label (columns df), rows = map rename_cells (rows df)\<rparr>"

text \<open>\<^verbatim>\<open>df[mask]\<close> keeps the rows where the mask holds; a comparison with NaN is false.\<close>

definition keep_rows :: "(cells \<Rightarrow> bool) \<Rightarrow> data_frame \<Rightarrow> data_frame" where
  "keep_rows p df = df\<lparr>rows := filter p (rows df)\<rparr>"

definition num_holds :: "(real \<Rightarrow> bool) \<Rightarrow> real option \<Rightarrow> bool" where
  "num_holds p v = (case v of None \<Rightarrow> False | Some x \<Rightarrow> p x)"

text \<open>\<^verbatim>\<open>df.dropna(subset=...)\<close> raises \<^verbatim>\<open>KeyError\<close> for a label the frame does not have.\<close>

definition dropna_rows :: "string list \<Rightarrow> data_frame \<Rightarrow> error + data_frame" where
  "dropna_rows labels df =
     (case filter (\<lambda>c. c \<notin> set (columns df)) labels of
        c # cs \<Rightarrow> Inl (KeyError c)
      | [] \<Rightarrow> Inr (keep_rows (\<lambda>r. list_all (\<lambda>c. num r c \<noteq> None) labels) df))"

definition validate_ranges :: "data_frame \<Rightarrow> data_frame" where
  "validate_ranges df =
     (let duration_cols = [Durestd_Inss_min, Duropt_Inss_min] @ PERCENTILE_COLUMNS;
          df1 = fold (\<lambda>col d. if col \<in> set (columns d)
                               then keep_rows (\<lambda>r. num_holds (\<lambda>x. 0 \<le> x) (num r col)) d else d)
                     duration_cols df
      in if Count_Episodios \<in> set (columns df1)
         then keep_rows (\<lambda>r. num_holds (\<lambda>x. MIN_EPISODIOS \<le> x) (num r Count_Episodios) \<and>
                              num_holds (\<lambda>x. x \<le> MAX_EPISODIOS) (num r Count_Episodios)) df1
         else df1)"

definition clean_data :: "data_frame \<Rightarrow> error + data_frame" where
  "clean_data df =
     (case dropna_rows NUMERIC_COLUMNS df of
        Inl e \<Rightarrow> Inl e
      | Inr d \<Rightarrow> Inr (validate_ranges d))"

text \<open>
  \<^verbatim>\<open>_sort_data\<close>: the age group becomes an ordered categorical (a value outside the
  categories becomes missing), then the rows are sorted by the sort columns the frame
  has, lexicographically, missing values last, rows with equal keys in their order of
  arrival. Strings compare by code units; age groups by their position in the categories.
\<close>

definition categorical :: "string list \<Rightarrow> string option \<Rightarrow> string option" where
  "categorical cats v = (case v of None \<Rightarrow> None | Some s \<Rightarrow> if s \<in> set cats then Some s else None)"

fun str_less :: "string \<Rightarrow> string \<Rightarrow> bool" where
  "str_less [] [] = False"
| "str_less [] (y # ys) = True"
| "str_less (x # xs) [] = False"
| "str_less (x # xs) (y # ys) =
     ((of_char x :: nat) < of_char y \<or> (x = y \<and> str_less xs ys))"

fun position :: "'a list \<Rightarrow> 'a \<Rightarrow> nat" where
  "position [] a = 0"
| "position (x # xs) a = (if x = a then 0 else Suc (position xs a))"

definition key_less :: "string \<Rightarrow> string \<Rightarrow> string \<Rightarrow> bool" where
  "key_less col a b =
     (if col = Gr_Edad_10 then position EDAD_ORDEN a < position EDAD_ORDEN b else str_less a b)"

definition cell_less :: "string \<Rightarrow> string option \<Rightarrow> string option \<Rightarrow> bool" where
  "cell_less col a b =
     (case a of None \<Rightarrow> False
      | Some x \<Rightarrow> (case b of None \<Rightarrow> True | Some y \<Rightarrow> key_less col x y))"

fun row_less :: "string list \<Rightarrow> cells \<Rightarrow> cells \<Rightarrow> bool" where
  "row_less [] r1 r2 = False"
| "row_less (c # cs) r1 r2 =
     (cell_less c (str r1 c) (str r2 c) \<or>
      (\<not> cell_less c (str r2 c) (str r1 c) \<and> row_less cs r1 r2))"

fun insert_row :: "(cells \<Rightarrow> cells \<Rightarrow> bool) \<Rightarrow> cells \<Rightarrow> cells list \<Rightarrow> cells list" where
  "insert_row lt r [] = [r]"
| "insert_row lt r (x # xs) = (if lt x r then x # insert_row lt r xs else r # x # xs)"

definition sort_rows :: "(cells \<Rightarrow> cells \<Rightarrow> bool) \<Rightarrow> cells list \<Rightarrow> cells list" where
  "sort_rows lt rs = foldr (insert_row lt) rs []"

definition sort_data :: "data_frame \<Rightarrow> data_frame" where
  "sort_data df =
     (let df1 = (if Gr_Edad_10 \<in> set (columns df)
                 then df\<lparr>rows := map (\<lambda>r. r\<lparr>str := (str r)(Gr_Edad_10 :=
                                   categorical EDAD_ORDEN (str r Gr_Edad_10))\<rparr>) (rows df)\<rparr>
                 else df);
          sort_columns = filter (\<lambda>col. col \<in> set (columns df1)) [Diagnostico, Cod_Genero, Gr_Edad_10]
      in if sort_columns \<noteq> [] then df1\<lparr>rows := sort_rows (row_less sort_columns) (rows df1)\<rparr>
         else df1)"

text \<open>
  \<^verbatim>\<open>_calculate_additional_fields\<close>. \<^verbatim>\<open>df[percentile_cols].nunique(axis=1)\<close> counts, row by
  row, the distinct values that are not NaN. Assigning to \<^verbatim>\<open>df[label]\<close> appends the
  column when the frame does not have it and overwrites it otherwise.
\<close>

definition nunique :: "real option list \<Rightarrow> nat" where
  "nunique vs = length (remdups (dropna vs))"

definition add_column :: "string \<Rightarrow> string list \<Rightarrow> string list" where
  "add_column c cols = (if c \<in> set cols then cols else cols @ [c])"

definition set_percentiles_iguales :: "string list \<Rightarrow> cells \<Rightarrow> cells" where
  "set_percentiles_iguales cols r =
     r\<lparr>flag := (flag r)(percentiles_iguales := (nunique (map (num r) cols) = 1))\<rparr>"

definition set_difference :: "string \<Rightarrow> string \<Rightarrow> cells \<Rightarrow> cells" where
  "set_difference label col r = r\<lparr>num := (num r)(label := nan2 (-) (num r col) (num r P60min))\<rparr>"

definition calculate_additional_fields :: "data_frame \<Rightarrow> data_frame" where
  "calculate_additional_fields df =
     (let cols = filter (\<lambda>col. col \<in> set (columns df)) PERCENTILE_COLUMNS;
          df1 = (if cols \<noteq> []
                 then \<lparr>columns = add_column percentiles_iguales (columns df),
                       rows = map (set_percentiles_iguales cols) (rows df)\<rparr>
                 else df);
          df2 = (if Durestd_Inss_min \<in> set (columns df1) \<and> P60min \<in> set (columns df1)
                 then \<lparr>columns = add_column diferencia_estandar (columns df1),
                       rows = map (set_difference diferencia_estandar Durestd_Inss_min) (rows df1)\<rparr>
                 else df1)
      in if Duropt_Inss_min \<in> set (columns df2) \<and> P60min \<in> set (columns df2)
         then \<lparr>columns = add_column diferencia_optima (columns df2),
               rows = map (set_difference diferencia_optima Duropt_Inss_min) (rows df2)\<rparr>
         else df2)"

definition load_and_process_data :: "data_frame \<Rightarrow> load_error + data_frame" where
  "load_and_process_data raw =
     (if \<not> validate_columns raw then Inl (MissingColumns (missing_columns raw))
      else
        (case clean_data (rename_columns raw) of
           Inl e \<Rightarrow> Inl (ProcessingError e)
         | Inr d \<Rightarrow> Inr (calculate_additional_fields (sort_data d))))"

section \<open>Concrete inputs\<close>

definition all_columns :: "string list" where
  "all_columns =
     [Diagnostico, ''Gr Ocupac'', Cod_Genero, Gr_Edad_10, Caso, Count_Episodios,
      Durestd_Inss_min, Duropt_Inss_min] @ PERCENTILE_COLUMNS"

definition record_row ::
  "string \<Rightarrow> string \<Rightarrow> real \<Rightarrow> real \<Rightarrow> real \<Rightarrow> real list \<Rightarrow> bool \<Rightarrow> cells" where
  "record_row diag caso episodes std opt ps same =
     mk_cells ([(Count_Episodios, episodes), (Durestd_Inss_min, std), (Duropt_Inss_min, opt)] @
                 zip PERCENTILE_COLUMNS ps)
              [(Diagnostico, diag), (Caso, caso)]
              [(percentiles_iguales, same)]"

text \<open>The three records of the scenario of section 8 of the specification.\<close>

definition scenario_df :: data_frame where
  "scenario_df =
     \<lparr>columns = all_columns @ [percentiles_iguales],
      rows = [record_row ''A'' ''C001'' 15 30 25 [10, 15, 20, 25, 30, 35] False,
              record_row ''A'' ''C002'' 8 20 18 [8, 12, 16, 20, 24, 28] False,
              record_row ''B'' ''C003'' 12 25 22 [12, 16, 20, 24, 28, 32] False]\<rparr>"

text \<open>A colormap for concrete runs: any function from the unit interval to colours will do.\<close>

definition demo_cmap :: "real \<Rightarrow> color" where
  "demo_cmap t = RGBA t (1 - t) 0 1"

text \<open>Single rows: one whose flag is set with a single percentile value present, one with
  six identical values, one that has a percentile column and nothing else.\<close>

definition single_value_row :: series where
  "single_value_row =
     \<lparr>index = [''Minmin'', ''P20min'', percentiles_iguales],
      vals = mk_cells [(''Minmin'', 20)] [] [(percentiles_iguales, True)]\<rparr>"

definition constant_row :: series where
  "constant_row =
     \<lparr>index = columns scenario_df,
      vals = record_row ''A'' ''C004'' 5 30 25 [20, 20, 20, 20, 20, 20] True\<rparr>"

definition bare_row :: series where
  "bare_row = \<lparr>index = [''Minmin''], vals = mk_cells [(''Minmin'', 20)] [] []\<rparr>"

text \<open>A frame with one row whose percentile values are tied once and out of order once,
  and a frame that has none of the six percentile columns.\<close>

definition crossed_df :: data_frame where
  "crossed_df =
     \<lparr>columns = PERCENTILE_COLUMNS,
      rows = [mk_cells (zip PERCENTILE_COLUMNS [10, 15, 15, 12, 30, 35]) [] []]\<rparr>"

definition no_percentiles_df :: data_frame where
  "no_percentiles_df =
     \<lparr>columns = [Diagnostico, Caso, Count_Episodios],
      rows = [mk_cells [(Count_Episodios, 3)] [(Diagnostico, ''A''), (Caso, ''C001'')] []]\<rparr>"

text \<open>Frames with missing cells: one whose middle row has no episode count, one in which
  no row has a count, and one whose only percentile cell is missing.\<close>

definition gap_df :: data_frame where
  "gap_df =
     \<lparr>columns = [Count_Episodios],
      rows = [mk_cells [(Count_Episodios, 5)] [] [], mk_cells [] [] [],
              mk_cells [(Count_Episodios, 10)] [] []]\<rparr>"

definition uncounted_df :: data_frame where
  "uncounted_df = \<lparr>columns = [Count_Episodios], rows = [mk_cells [] [] [], mk_cells [] [] []]\<rparr>"

definition blank_df :: data_frame where
  "blank_df = \<lparr>columns = [''Minmin''], rows = [mk_cells [] [] []]\<rparr>"

section \<open>Notions used in the statements and proofs\<close>

text \<open>The rectangle the loop body draws for an adjacent pair \<open>(a, b)\<close> of present values.\<close>

definition pair_rect :: "nat \<Rightarrow> real option \<Rightarrow> (real \<Rightarrow> color) \<Rightarrow> real list \<Rightarrow> real \<times> real \<Rightarrow> instr" where
  "pair_rect idx height cmap ps ab =
     Barh idx (snd ab - fst ab) (fst ab) height
       (cmap (Normalize (py_min ps) (py_max ps) ((fst ab + snd ab) / 2)))"

text \<open>The numeric cell of a row under a label, NaN when the row does not have the label:
  the test \<^verbatim>\<open>col in row.index and pd.notna(row[col])\<close> holds exactly when it is a number.\<close>

definition cell_of :: "series \<Rightarrow> string \<Rightarrow> real option" where
  "cell_of row col = (if col \<in> set (index row) then num (vals row) col else None)"

text \<open>The row loop of \<open>create_comparative_chart\<close>, with the arguments the chart gives it.\<close>

definition chart_rows :: "(real \<Rightarrow> color) \<Rightarrow> data_frame \<Rightarrow> error option \<times> instr list" where
  "chart_rows cmap df =
     (let available_cols = filter (\<lambda>col. col \<in> set (columns df)) percentile_cols
      in emit_rows cmap available_cols (calculate_bar_heights df)
           (nanmin (map (\<lambda>col. nanmin (column_num df col)) available_cols))
           (nanmax (map (\<lambda>col. nanmax (column_num df col)) available_cols))
           (enumerate 0 (iterrows df)))"

text \<open>
  Following the words of section 4.5 of the specification: the label sequence is cut into
  maximal runs of equal consecutive values. Equality of labels is that of pandas (a
  missing label equals nothing, itself included); for present labels it is plain equality.
  \<open>equal_run\<close> says that neighbours inside a run are equal, \<open>separated\<close> that the last label of a
  run differs from the first label of the next (the runs are maximal). Run \<open>i\<close> spans the
  slots \<open>[start, stop)\<close> that \<open>run_spans\<close> lists. \<open>tiles lo hi bs\<close> says that the intervals
  \<open>bs\<close>, each non-empty and half-open, follow one another from \<open>lo\<close> to \<open>hi\<close> without gap or overlap.
\<close>

fun maximal_runs :: "'a option list \<Rightarrow> 'a option list list" where
  "maximal_runs [] = []"
| "maximal_runs (x # xs) =
     (case maximal_runs xs of
        [] \<Rightarrow> [[x]]
      | g # gs \<Rightarrow> if ne (hd g) x then [x] # g # gs else (x # g) # gs)"

fun equal_run :: "'a option list \<Rightarrow> bool" where
  "equal_run (x # y # xs) = (\<not> ne y x \<and> equal_run (y # xs))"
| "equal_run _ = True"

fun separated :: "'a option list list \<Rightarrow> bool" where
  "separated (g # h # gs) = (ne (hd h) (last g) \<and> separated (h # gs))"
| "separated _ = True"

fun run_spans :: "int \<Rightarrow> 'b list list \<Rightarrow> (int \<times> int) list" where
  "run_spans start [] = []"
| "run_spans start (g # gs) =
     (start, start + int (length g)) # run_spans (start + int (length g)) gs"

fun tiles :: "int \<Rightarrow> int \<Rightarrow> (int \<times> int) list \<Rightarrow> bool" where
  "tiles lo hi [] = (lo = hi)"
| "tiles lo hi ((s, e) # bs) = (s = lo \<and> s < e \<and> tiles e hi bs)"

text \<open>The lower and upper edge of a band.\<close>

fun band_span :: "instr \<Rightarrow> real \<times> real" where
  "band_span (Axhspan y0 y1 c a) = (y0, y1)"
| "band_span _ = (0, 0)"

text \<open>The change flags of a label sequence after a given previous label, and the run
  number of every row: the intermediate values of \<open>diagnosis_bounds\<close>.\<close>

fun adj_flags :: "'a option \<Rightarrow> 'a option list \<Rightarrow> int list" where
  "adj_flags p [] = []"
| "adj_flags p (x # xs) = (if ne x p then 1 else 0) # adj_flags x xs"

fun run_ids :: "int \<Rightarrow> 'b list list \<Rightarrow> int list" where
  "run_ids k [] = []"
| "run_ids k (g # gs) = replicate (length g) k @ run_ids (k + 1) gs"

text \<open>The distinct percentile values a row has under the percentile columns of its frame.\<close>

definition distinct_percentiles :: "data_frame \<Rightarrow> cells \<Rightarrow> real set" where
  "distinct_percentiles df r =
     {v. \<exists>col \<in> set PERCENTILE_COLUMNS \<inter> set (columns df). num r col = Some v}"

text \<open>What the ingestion stage guarantees of a row: the nine numeric cells are present,
  the two durations and the six percentiles are not negative, and the episode count lies
  between \<open>MIN_EPISODIOS\<close> and \<open>MAX_EPISODIOS\<close>.\<close>

definition pipeline_row_ok :: "cells \<Rightarrow> bool" where
  "pipeline_row_ok r =
     ((\<forall>col \<in> set NUMERIC_COLUMNS. \<exists>v. num r col = Some v \<and> (col \<noteq> Count_Episodios \<longrightarrow> 0 \<le> v)) \<and>
      (\<exists>n. num r Count_Episodios = Some n \<and> MIN_EPISODIOS \<le> n \<and> n \<le> MAX_EPISODIOS))"

text \<open>A frame with two percentile columns and four rows: two equal values, one value and
  one missing cell, two missing cells, two different values.\<close>

definition flags_df :: data_frame where
  "flags_df =
     \<lparr>columns = [''Minmin'', ''P20min''],
      rows = [mk_cells [(''Minmin'', 20), (''P20min'', 20)] [] [],
              mk_cells [(''Minmin'', 20)] [] [],
              mk_cells [] [] [],
              mk_cells [(''Minmin'', 10), (''P20min'', 20)] [] []]\<rparr>"

text \<open>A sheet as \<^verbatim>\<open>pd.read_excel\<close> delivers it, under the labels of the spreadsheet: the
  sample of the test suite with a negative standard duration in its second row and an
  episode count above the maximum in its third.\<close>

definition sheet_row ::
  "string \<Rightarrow> string \<Rightarrow> string \<Rightarrow> string \<Rightarrow> real \<Rightarrow> real \<Rightarrow> real \<Rightarrow> real list \<Rightarrow> cells" where
  "sheet_row diag genero edad caso episodes std opt ps =
     mk_cells ([(''Count (Id Episodio)'', episodes), (''Durestd Inss min'', std),
                (''Duropt Inss min'', opt)] @ zip PERCENTILE_COLUMNS ps)
              [(''Des Cie9 3dig'', diag), (''Cod Genero'', genero), (''Gr Edad 10'', edad),
               (''CASO'', caso)] []"

definition sample_sheet :: data_frame where
  "sample_sheet =
     \<lparr>columns = map fst COLUMN_MAPPING,
      rows = [sheet_row ''Lumbalgia'' ''M'' ''36-45'' ''C001'' 15 30 25 [10, 15, 20, 25, 30, 35],
              sheet_row ''Cervicalgia'' ''F'' ''26-35'' ''C002'' 8 (- 5) 18 [8, 12, 16, 20, 24, 28],
              sheet_row ''Tendinitis'' ''M'' ''46-55'' ''C003'' 2000 25 22 [12, 16, 20, 24, 28, 32]]\<rparr>"

section \<open>Unfolding the concrete inputs\<close>

lemmas label_defs = Diagnostico_def Caso_def Cod_Genero_def Gr_Edad_10_def Count_Episodios_def
  Durestd_Inss_min_def Duropt_Inss_min_def P60min_def percentiles_iguales_def
  diferencia_estandar_def diferencia_optima_def PERCENTILE_COLUMNS_def o_acute_def

lemmas input_defs = scenario_df_def all_columns_def record_row_def mk_cells_def

lemmas gap_defs = gap_df_def uncounted_df_def mk_cells_def column_num_def

section \<open>Facts about NaN-aware reductions\<close>

lemma mem_dropna: "c \<in> set (dropna xs) \<longleftrightarrow> Some c \<in> set xs"
  by (induction xs rule: dropna.induct) auto

lemma nanmax_Max: "dropna xs \<noteq> [] \<Longrightarrow> nanmax xs = Some (Max (set (dropna xs)))"
  by (cases "dropna xs") (simp_all add: nanmax_def Max.set_eq_fold[symmetric])

lemma nanmin_Min: "dropna xs \<noteq> [] \<Longrightarrow> nanmin xs = Some (Min (set (dropna xs)))"
  by (cases "dropna xs") (simp_all add: nanmin_def Min.set_eq_fold[symmetric])

section \<open>The row heights\<close>

lemma linear_scale_bounds:
  fixes c lo hi :: real
  assumes "lo \<le> c" "c \<le> hi" "hi - lo \<noteq> 0"
  shows "MIN_BAR_HEIGHT \<le> MIN_BAR_HEIGHT + (c - lo) / (hi - lo) * (MAX_BAR_HEIGHT - MIN_BAR_HEIGHT)
     \<and> MIN_BAR_HEIGHT + (c - lo) / (hi - lo) * (MAX_BAR_HEIGHT - MIN_BAR_HEIGHT) \<le> MAX_BAR_HEIGHT"
proof -
  have pos: "0 < hi - lo" using assms by linarith
  have f0: "0 \<le> (c - lo) / (hi - lo)" using assms pos by simp
  have f1: "(c - lo) / (hi - lo) \<le> 1" using assms pos by simp
  have d: "0 \<le> MAX_BAR_HEIGHT - MIN_BAR_HEIGHT" by (simp add: MAX_BAR_HEIGHT_def MIN_BAR_HEIGHT_def)
  have lower: "MIN_BAR_HEIGHT \<le> MIN_BAR_HEIGHT + (c - lo) / (hi - lo) * (MAX_BAR_HEIGHT - MIN_BAR_HEIGHT)"
    using mult_nonneg_nonneg[OF f0 d] by linarith
  have "(c - lo) / (hi - lo) * (MAX_BAR_HEIGHT - MIN_BAR_HEIGHT) \<le> 1 * (MAX_BAR_HEIGHT - MIN_BAR_HEIGHT)"
    using f1 d by (rule mult_right_mono)
  then have upper: "MIN_BAR_HEIGHT + (c - lo) / (hi - lo) * (MAX_BAR_HEIGHT - MIN_BAR_HEIGHT) \<le> MAX_BAR_HEIGHT"
    by simp
  from lower upper show ?thesis ..
qed

lemma mid_height_bounds: "MIN_BAR_HEIGHT \<le> mid_height \<and> mid_height \<le> MAX_BAR_HEIGHT"
  by (simp add: mid_height_def MAX_BAR_HEIGHT_def MIN_BAR_HEIGHT_def)

lemma length_calculate_bar_heights: "length (calculate_bar_heights df) = length (rows df)"
  by (simp add: calculate_bar_heights_def column_num_def Let_def)

lemma heights_absent:
  "Count_Episodios \<notin> set (columns df) \<Longrightarrow>
   calculate_bar_heights df = replicate (length (rows df)) (Some mid_height)"
  by (simp add: calculate_bar_heights_def)

lemma heights_flat:
  assumes "Count_Episodios \<in> set (columns df)" "dropna (column_num df Count_Episodios) \<noteq> []"
    "Max (set (dropna (column_num df Count_Episodios))) = Min (set (dropna (column_num df Count_Episodios)))"
  shows "calculate_bar_heights df = replicate (length (rows df)) (Some mid_height)"
  using assms
  by (simp add: calculate_bar_heights_def nanmax_Max nanmin_Min nan2_def Let_def)
     (simp add: column_num_def)

lemma heights_scaled:
  assumes "Count_Episodios \<in> set (columns df)" "i < length (rows df)"
    "column_num df Count_Episodios ! i = Some c"
    "Max (set (dropna (column_num df Count_Episodios))) \<noteq> Min (set (dropna (column_num df Count_Episodios)))"
  shows "calculate_bar_heights df ! i =
     Some (MIN_BAR_HEIGHT + (c - Min (set (dropna (column_num df Count_Episodios)))) /
        (Max (set (dropna (column_num df Count_Episodios))) - Min (set (dropna (column_num df Count_Episodios)))) *
        (MAX_BAR_HEIGHT - MIN_BAR_HEIGHT))"
proof -
  have len: "i < length (column_num df Count_Episodios)"
    using assms(2) by (simp add: column_num_def)
  then have "Some c \<in> set (column_num df Count_Episodios)"
    using assms(3) by (metis nth_mem)
  then have ne: "dropna (column_num df Count_Episodios) \<noteq> []"
    using mem_dropna[of c "column_num df Count_Episodios"] by auto
  show ?thesis
    using assms ne len
    by (simp add: calculate_bar_heights_def nanmax_Max nanmin_Min nan2_def Let_def)
qed

lemma heights_missing:
  assumes "Count_Episodios \<in> set (columns df)" "i < length (rows df)"
    "column_num df Count_Episodios ! i = None"
    "dropna (column_num df Count_Episodios) = [] \<or>
     Max (set (dropna (column_num df Count_Episodios))) \<noteq> Min (set (dropna (column_num df Count_Episodios)))"
  shows "calculate_bar_heights df ! i = None"
proof -
  let ?cs = "column_num df Count_Episodios"
  have len: "i < length ?cs" using assms(2) by (simp add: column_num_def)
  have range: "nan2 (-) (nanmax ?cs) (nanmin ?cs) \<noteq> Some 0"
  proof (cases "dropna ?cs = []")
    case True
    then have "nanmax ?cs = None" by (simp add: nanmax_def)
    then show ?thesis by (simp add: nan2_def)
  next
    case False
    with assms(4) show ?thesis by (simp add: nanmax_Max nanmin_Min nan2_def)
  qed
  show ?thesis
    using assms(1,3) len range by (simp add: calculate_bar_heights_def Let_def nan2_def)
qed

text \<open>
  Claim C4 as stated fails. A row whose episode count is missing gets no height when the
  counts of the other rows differ: pandas skips the missing count in \<^verbatim>\<open>max\<close> and \<^verbatim>\<open>min\<close>, and
  the scaled value of the row is NaN, which lies in no interval. When no row has a count
  the range itself is NaN, the test \<^verbatim>\<open>range_counts == 0\<close> is false, and every height is NaN
  rather than the midpoint.
\<close>

theorem missing_count_counterexample:
  "Count_Episodios \<in> set (columns gap_df) \<and>
   column_num gap_df Count_Episodios = [Some 5, None, Some 10] \<and>
   calculate_bar_heights gap_df = [Some MIN_BAR_HEIGHT, None, Some MAX_BAR_HEIGHT] \<and>
   Count_Episodios \<in> set (columns uncounted_df) \<and>
   column_num uncounted_df Count_Episodios = [None, None] \<and>
   calculate_bar_heights uncounted_df = [None, None]"
  by (simp add: calculate_bar_heights_def gap_defs nanmax_def nanmin_def nan2_def
      MIN_BAR_HEIGHT_def MAX_BAR_HEIGHT_def)

text \<open>
  Claim C4, amended. Whatever the episode counts are, the function has no failing branch
  and yields one height per row. When the frame has no episode-count column, or when some
  count is present and the largest and the smallest present count coincide, every height
  is the exact midpoint \<open>(MIN_BAR_HEIGHT + MAX_BAR_HEIGHT) / 2\<close>. Otherwise the height of a
  row with count \<open>c\<close> is \<open>MIN + (c - count_min) / (count_max - count_min) * (MAX - MIN)\<close>, the
  minimum and maximum being those of the present counts of the column, and a row whose
  count is missing has no height (NaN). The height of a row that has a count, and of any
  row when the column is absent, lies in \<open>[MIN_BAR_HEIGHT, MAX_BAR_HEIGHT]\<close>; so when no
  count is missing, every height does.
\<close>

theorem bar_heights_within_bounds:
  "length (calculate_bar_heights df) = length (rows df) \<and>
   (Count_Episodios \<notin> set (columns df) \<longrightarrow>
      calculate_bar_heights df = replicate (length (rows df)) (Some ((MIN_BAR_HEIGHT + MAX_BAR_HEIGHT) / 2))) \<and>
   (Count_Episodios \<in> set (columns df) \<and> dropna (column_num df Count_Episodios) \<noteq> [] \<and>
    Max (set (dropna (column_num df Count_Episodios))) - Min (set (dropna (column_num df Count_Episodios))) = 0 \<longrightarrow>
      calculate_bar_heights df = replicate (length (rows df)) (Some ((MIN_BAR_HEIGHT + MAX_BAR_HEIGHT) / 2))) \<and>
   (Count_Episodios \<in> set (columns df) \<and> i < length (rows df) \<and>
    column_num df Count_Episodios ! i = Some c \<and>
    Max (set (dropna (column_num df Count_Episodios))) - Min (set (dropna (column_num df Count_Episodios))) \<noteq> 0 \<longrightarrow>
      calculate_bar_heights df ! i =
        Some (MIN_BAR_HEIGHT +
              (c - Min (set (dropna (column_num df Count_Episodios)))) /
              (Max (set (dropna (column_num df Count_Episodios))) - Min (set (dropna (column_num df Count_Episodios)))) *
              (MAX_BAR_HEIGHT - MIN_BAR_HEIGHT))) \<and>
   (i < length (rows df) \<and>
    (Count_Episodios \<in> set (columns df) \<longrightarrow> column_num df Count_Episodios ! i \<noteq> None) \<longrightarrow>
      (\<exists>h. calculate_bar_heights df ! i = Some h \<and> MIN_BAR_HEIGHT \<le> h \<and> h \<le> MAX_BAR_HEIGHT)) \<and>
   ((Count_Episodios \<in> set (columns df) \<longrightarrow> None \<notin> set (column_num df Count_Episodios)) \<longrightarrow>
      (\<forall>h \<in> set (calculate_bar_heights df).
          \<exists>v. h = Some v \<and> MIN_BAR_HEIGHT \<le> v \<and> v \<le> MAX_BAR_HEIGHT)) \<and>
   (Count_Episodios \<in> set (columns df) \<and> i < length (rows df) \<and>
    column_num df Count_Episodios ! i = None \<and>
    (dropna (column_num df Count_Episodios) = [] \<or>
     Max (set (dropna (column_num df Count_Episodios))) - Min (set (dropna (column_num df Count_Episodios))) \<noteq> 0) \<longrightarrow>
      calculate_bar_heights df ! i = None)"
proof -
  let ?cs = "column_num df Count_Episodios"
  let ?S = "set (dropna ?cs)"
  have missing: "Count_Episodios \<in> set (columns df) \<and> i < length (rows df) \<and> ?cs ! i = None \<and>
      (dropna ?cs = [] \<or> Max ?S - Min ?S \<noteq> 0) \<longrightarrow> calculate_bar_heights df ! i = None"
    using heights_missing[of df i] by auto
  have in_range_at: "\<exists>h. calculate_bar_heights df ! i = Some h \<and> MIN_BAR_HEIGHT \<le> h \<and> h \<le> MAX_BAR_HEIGHT"
    if i: "i < length (rows df)" and pres: "Count_Episodios \<in> set (columns df) \<longrightarrow> ?cs ! i \<noteq> None"
    for i
  proof (cases "Count_Episodios \<in> set (columns df)")
    case False
    then show ?thesis using i mid_height_bounds by (simp add: heights_absent)
  next
    case True
    then obtain c where c: "?cs ! i = Some c" using pres by auto
    have "Some c \<in> set ?cs" using i c by (metis column_num_def length_map nth_mem)
    then have cS: "c \<in> ?S" by (simp add: mem_dropna)
    then have ne: "dropna ?cs \<noteq> []" by auto
    show ?thesis
    proof (cases "Max ?S = Min ?S")
      case True
      then show ?thesis
        using heights_flat[OF \<open>Count_Episodios \<in> set (columns df)\<close> ne] i mid_height_bounds by simp
    next
      case False
      have lo: "Min ?S \<le> c" using cS by simp
      have hi: "c \<le> Max ?S" using cS by simp
      have nz: "Max ?S - Min ?S \<noteq> 0" using False by simp
      show ?thesis
        using heights_scaled[OF \<open>Count_Episodios \<in> set (columns df)\<close> i c False]
          linear_scale_bounds[OF lo hi nz] by simp
    qed
  qed
  have part: "length (calculate_bar_heights df) = length (rows df) \<and>
     (Count_Episodios \<notin> set (columns df) \<longrightarrow>
        calculate_bar_heights df = replicate (length (rows df)) (Some ((MIN_BAR_HEIGHT + MAX_BAR_HEIGHT) / 2))) \<and>
     (Count_Episodios \<in> set (columns df) \<and> dropna (column_num df Count_Episodios) \<noteq> [] \<and>
      Max (set (dropna (column_num df Count_Episodios))) - Min (set (dropna (column_num df Count_Episodios))) = 0 \<longrightarrow>
        calculate_bar_heights df = replicate (length (rows df)) (Some ((MIN_BAR_HEIGHT + MAX_BAR_HEIGHT) / 2))) \<and>
     (Count_Episodios \<in> set (columns df) \<and> i < length (rows df) \<and>
      column_num df Count_Episodios ! i = Some c \<and>
      Max (set (dropna (column_num df Count_Episodios))) - Min (set (dropna (column_num df Count_Episodios))) \<noteq> 0 \<longrightarrow>
        calculate_bar_heights df ! i =
          Some (MIN_BAR_HEIGHT +
                (c - Min (set (dropna (column_num df Count_Episodios)))) /
                (Max (set (dropna (column_num df Count_Episodios))) - Min (set (dropna (column_num df Count_Episodios)))) *
                (MAX_BAR_HEIGHT - MIN_BAR_HEIGHT))) \<and>
     (i < length (rows df) \<and>
      (Count_Episodios \<in> set (columns df) \<longrightarrow> column_num df Count_Episodios ! i \<noteq> None) \<longrightarrow>
        (\<exists>h. calculate_bar_heights df ! i = Some h \<and> MIN_BAR_HEIGHT \<le> h \<and> h \<le> MAX_BAR_HEIGHT))"
    using length_calculate_bar_heights[of df] heights_absent[of df] heights_flat[of df]
      heights_scaled[of df i c] in_range_at[of i]
    by (simp add: mid_height_def)
  have every: "(Count_Episodios \<in> set (columns df) \<longrightarrow> None \<notin> set (column_num df Count_Episodios)) \<longrightarrow>
        (\<forall>h \<in> set (calculate_bar_heights df).
            \<exists>v. h = Some v \<and> MIN_BAR_HEIGHT \<le> v \<and> v \<le> MAX_BAR_HEIGHT)"
  proof (intro impI ballI)
    fix h
    assume pres: "Count_Episodios \<in> set (columns df) \<longrightarrow> None \<notin> set ?cs"
      and h: "h \<in> set (calculate_bar_heights df)"
    from h obtain j where j: "j < length (rows df)" and hj: "calculate_bar_heights df ! j = h"
      by (auto simp: in_set_conv_nth length_calculate_bar_heights)
    have "?cs ! j \<in> set ?cs" using j by (simp add: column_num_def)
    with pres have pj: "Count_Episodios \<in> set (columns df) \<longrightarrow> ?cs ! j \<noteq> None"
      by metis
    have "\<exists>v. calculate_bar_heights df ! j = Some v \<and> MIN_BAR_HEIGHT \<le> v \<and> v \<le> MAX_BAR_HEIGHT"
      using in_range_at[OF j pj] .
    then show "\<exists>v. h = Some v \<and> MIN_BAR_HEIGHT \<le> v \<and> v \<le> MAX_BAR_HEIGHT"
      unfolding hj .
  qed
  from part every missing show ?thesis
    by (elim conjE) (intro conjI; assumption)
qed

theorem bar_heights_within_bounds_witness:
  "calculate_bar_heights scenario_df ! 2 = Some (3 / 7) \<and>
   calculate_bar_heights scenario_df ! 0 = Some MAX_BAR_HEIGHT \<and>
   calculate_bar_heights (scenario_df\<lparr>columns := PERCENTILE_COLUMNS\<rparr>) = [Some (2 / 5), Some (2 / 5), Some (2 / 5)] \<and>
   calculate_bar_heights (scenario_df\<lparr>rows := [hd (rows scenario_df), hd (rows scenario_df)]\<rparr>) = [Some (2 / 5), Some (2 / 5)] \<and>
   list_all (\<lambda>h. \<exists>v. h = Some v \<and> MIN_BAR_HEIGHT \<le> v \<and> v \<le> MAX_BAR_HEIGHT)
     (calculate_bar_heights scenario_df) \<and>
   calculate_bar_heights gap_df ! 1 = None \<and>
   calculate_bar_heights gap_df ! 2 = Some MAX_BAR_HEIGHT \<and>
   calculate_bar_heights uncounted_df ! 0 = None"
proof -
  have gap: "column_num gap_df Count_Episodios = [Some 5, None, Some 10] \<and>
      Count_Episodios \<in> set (columns gap_df) \<and> length (rows gap_df) = 3"
    by (simp add: gap_defs)
  have f: "calculate_bar_heights gap_df ! 1 = None"
    using bar_heights_within_bounds[of gap_df 1 0] gap by simp
  have g: "calculate_bar_heights gap_df ! 2 = Some MAX_BAR_HEIGHT"
    using bar_heights_within_bounds[of gap_df 2 10] gap by simp
  have uncounted: "column_num uncounted_df Count_Episodios = [None, None] \<and>
      Count_Episodios \<in> set (columns uncounted_df) \<and> length (rows uncounted_df) = 2"
    by (simp add: gap_defs)
  have h: "calculate_bar_heights uncounted_df ! 0 = None"
    using bar_heights_within_bounds[of uncounted_df 0 0] uncounted by simp
  have counts: "column_num scenario_df Count_Episodios = [Some 15, Some 8, Some 12]"
    by (simp add: column_num_def input_defs label_defs)
  have present: "Count_Episodios \<in> set (columns scenario_df)"
    by (simp add: input_defs label_defs)
  have len: "length (rows scenario_df) = 3"
    by (simp add: input_defs)
  have a: "calculate_bar_heights scenario_df ! 2 = Some (3 / 7)"
    using bar_heights_within_bounds[of scenario_df 2 12] counts present len
    by (simp add: MIN_BAR_HEIGHT_def MAX_BAR_HEIGHT_def)
  have b: "calculate_bar_heights scenario_df ! 0 = Some MAX_BAR_HEIGHT"
    using bar_heights_within_bounds[of scenario_df 0 15] counts present len
    by simp
  have absent: "Count_Episodios \<notin> set (columns (scenario_df\<lparr>columns := PERCENTILE_COLUMNS\<rparr>))"
    by (simp add: label_defs)
  have c: "calculate_bar_heights (scenario_df\<lparr>columns := PERCENTILE_COLUMNS\<rparr>) = [Some (2 / 5), Some (2 / 5), Some (2 / 5)]"
    using bar_heights_within_bounds[of "scenario_df\<lparr>columns := PERCENTILE_COLUMNS\<rparr>" 0 0] absent len
    by (simp add: MIN_BAR_HEIGHT_def MAX_BAR_HEIGHT_def numeral_3_eq_3)
  let ?flat = "scenario_df\<lparr>rows := [hd (rows scenario_df), hd (rows scenario_df)]\<rparr>"
  have counts2: "column_num ?flat Count_Episodios = [Some 15, Some 15]"
    by (simp add: column_num_def input_defs label_defs)
  have present2: "Count_Episodios \<in> set (columns ?flat)"
    by (simp add: input_defs label_defs)
  have d: "calculate_bar_heights ?flat = [Some (2 / 5), Some (2 / 5)]"
    using bar_heights_within_bounds[of ?flat 0 0] counts2 present2
    by (simp add: MIN_BAR_HEIGHT_def MAX_BAR_HEIGHT_def numeral_2_eq_2)
  have e: "list_all (\<lambda>h. \<exists>v. h = Some v \<and> MIN_BAR_HEIGHT \<le> v \<and> v \<le> MAX_BAR_HEIGHT)
             (calculate_bar_heights scenario_df)"
    using bar_heights_within_bounds[of scenario_df 0 15] counts
    by (simp add: list_all_iff)
  from a b c d e f g h show ?thesis by blast
qed

lemmas series_defs = single_value_row_def constant_row_def bare_row_def iterrows_def

section \<open>The degenerate marker\<close>

text \<open>
  Claim C1 as stated fails. The test \<^verbatim>\<open>if len(percentiles) < 2: return\<close> comes before the
  test of the flag, so a row whose flag is set and that has a single present percentile
  value draws nothing at all.
\<close>

theorem constant_single_value_counterexample:
  "no_variation_flag single_value_row \<and>
   present_values single_value_row [''Minmin'', ''P20min''] = Inr [20] \<and>
   create_percentile_bars single_value_row 0 (Some (2 / 5)) demo_cmap [''Minmin'', ''P20min''] = Inr []"
  by (simp add: create_percentile_bars_def no_variation_flag_def row_num_def series_defs mk_cells_def label_defs)

text \<open>
  Claim C1, amended. A row with fewer than two present percentile values draws nothing,
  whether its flag \<open>percentiles_iguales\<close> is set or not. For every row whose flag is set and
  that has at least two present percentile values, whatever their number and whatever
  they are, the helper emits exactly one rectangle, from \<open>v - 0.5\<close> to \<open>v + 0.5\<close> where \<open>v\<close> is
  the first present value, in light gray, followed by exactly one text, the fixed
  "no variation" label, at \<open>v + 1\<close>, to the right of the rectangle.
\<close>

theorem constant_distribution_marker:
  "(present_values row cols = Inr ps \<and> length ps < 2 \<longrightarrow>
      create_percentile_bars row idx height cmap cols = Inr []) \<and>
   (present_values row cols = Inr (v # w # vs) \<and> no_variation_flag row \<longrightarrow>
      create_percentile_bars row idx height cmap cols =
        Inr [Barh idx 1 (v - 1 / 2) height light_gray,
             Text (Some (v + 1)) idx no_variation None (Some dark_gray)] \<and>
      rect_x0 (Barh idx 1 (v - 1 / 2) height light_gray) = v - 1 / 2 \<and>
      rect_x1 (Barh idx 1 (v - 1 / 2) height light_gray) = v + 1 / 2)"
  by (simp add: create_percentile_bars_def)

theorem constant_distribution_marker_witness:
  "create_percentile_bars constant_row 3 (Some (2 / 5)) demo_cmap PERCENTILE_COLUMNS =
     Inr [Barh 3 1 (39 / 2) (Some (2 / 5)) light_gray,
          Text (Some 21) 3 no_variation None (Some dark_gray)] \<and>
   create_percentile_bars single_value_row 0 (Some (2 / 5)) demo_cmap [''Minmin'', ''P20min''] = Inr [] \<and>
   create_percentile_bars bare_row 0 (Some (2 / 5)) demo_cmap [''Minmin''] = Inr []"
proof -
  have vals: "present_values constant_row PERCENTILE_COLUMNS = Inr [20, 20, 20, 20, 20, 20]"
    by (simp add: row_num_def series_defs input_defs label_defs)
  have flag: "no_variation_flag constant_row"
    by (simp add: no_variation_flag_def series_defs input_defs label_defs)
  have a: "create_percentile_bars constant_row 3 (Some (2 / 5)) demo_cmap PERCENTILE_COLUMNS =
     Inr [Barh 3 1 (39 / 2) (Some (2 / 5)) light_gray,
          Text (Some 21) 3 no_variation None (Some dark_gray)]"
    using constant_distribution_marker[of constant_row PERCENTILE_COLUMNS "[]" 3 "Some (2 / 5)"
        demo_cmap 20 20 "[20, 20, 20, 20]"] vals flag
    by simp
  have single: "present_values single_value_row [''Minmin'', ''P20min''] = Inr [20]"
    by (simp add: row_num_def series_defs mk_cells_def label_defs)
  have b: "create_percentile_bars single_value_row 0 (Some (2 / 5)) demo_cmap [''Minmin'', ''P20min''] = Inr []"
    using constant_distribution_marker[of single_value_row "[''Minmin'', ''P20min'']" "[20]" 0
        "Some (2 / 5)" demo_cmap 0 0 "[]"] single
    by simp
  have bare: "present_values bare_row [''Minmin''] = Inr [20]"
    by (simp add: row_num_def series_defs mk_cells_def label_defs)
  have c: "create_percentile_bars bare_row 0 (Some (2 / 5)) demo_cmap [''Minmin''] = Inr []"
    using constant_distribution_marker[of bare_row "[''Minmin'']" "[20]" 0
        "Some (2 / 5)" demo_cmap 0 0 "[]"] bare
    by simp
  from a b c show ?thesis by blast
qed

section \<open>The reference markers\<close>

lemma nan2_simps:
  "nan2 f (Some x) (Some y) = Some (f x y)" "nan2 f None b = None" "nan2 f a None = None"
  by (simp_all add: nan2_def split: option.split)

text \<open>
  Claim C7. For a row at slot \<open>idx\<close> with height \<open>h\<close>: when the standard duration is present
  (the column exists and the cell is not NaN), exactly one vertical line is drawn, at
  \<open>x = standard_duration\<close>, from \<open>idx - h/2\<close> to \<open>idx + h/2\<close>; when it is absent, no line is
  drawn. When the optimal duration is present exactly one point is drawn, at
  \<open>(optimal_duration, idx)\<close>; when it is absent, none. Nothing else is drawn, and the helper
  has no failing branch.
\<close>

theorem inss_markers:
  "(Durestd_Inss_min \<in> set (index row) \<and> num (vals row) Durestd_Inss_min = Some s \<longrightarrow>
      filter is_line (add_inss_lines row idx (Some h)) =
        [PlotLine s (Some (real idx - h / 2)) (Some (real idx + h / 2)) black 1.4]) \<and>
   (Durestd_Inss_min \<notin> set (index row) \<or> num (vals row) Durestd_Inss_min = None \<longrightarrow>
      filter is_line (add_inss_lines row idx (Some h)) = []) \<and>
   (Duropt_Inss_min \<in> set (index row) \<and> num (vals row) Duropt_Inss_min = Some p \<longrightarrow>
      filter is_point (add_inss_lines row idx (Some h)) = [PlotPoint p idx blue 6]) \<and>
   (Duropt_Inss_min \<notin> set (index row) \<or> num (vals row) Duropt_Inss_min = None \<longrightarrow>
      filter is_point (add_inss_lines row idx (Some h)) = []) \<and>
   (\<forall>d \<in> set (add_inss_lines row idx (Some h)). is_line d \<or> is_point d)"
proof -
  define std where "std = (if Durestd_Inss_min \<in> set (index row) then num (vals row) Durestd_Inss_min else None)"
  define opt where "opt = (if Duropt_Inss_min \<in> set (index row) then num (vals row) Duropt_Inss_min else None)"
  have eq: "add_inss_lines row idx (Some h) =
      (case std of None \<Rightarrow> []
       | Some x \<Rightarrow> [PlotLine x (Some (real idx - h / 2)) (Some (real idx + h / 2)) black 1.4]) @
      (case opt of None \<Rightarrow> [] | Some x \<Rightarrow> [PlotPoint x idx blue 6])"
    by (simp add: add_inss_lines_def nan2_simps std_def opt_def split: option.split)
  show ?thesis
    unfolding eq
    by (cases std; cases opt) (auto simp: std_def opt_def split: if_splits)
qed

theorem inss_markers_witness:
  "filter is_line (add_inss_lines (hd (iterrows scenario_df)) 0 (Some (3 / 5))) =
      [PlotLine 30 (Some (- (3 / 10))) (Some (3 / 10)) black 1.4] \<and>
   filter is_point (add_inss_lines (hd (iterrows scenario_df)) 0 (Some (3 / 5))) =
      [PlotPoint 25 0 blue 6] \<and>
   filter is_line (add_inss_lines bare_row 0 (Some (3 / 5))) = [] \<and>
   filter is_point (add_inss_lines bare_row 0 (Some (3 / 5))) = [] \<and>
   list_all (\<lambda>d. is_line d \<or> is_point d) (add_inss_lines (hd (iterrows scenario_df)) 0 (Some (3 / 5)))"
proof -
  let ?row = "hd (iterrows scenario_df)"
  have std: "Durestd_Inss_min \<in> set (index ?row) \<and> num (vals ?row) Durestd_Inss_min = Some 30"
    by (simp add: series_defs input_defs label_defs)
  have opt: "Duropt_Inss_min \<in> set (index ?row) \<and> num (vals ?row) Duropt_Inss_min = Some 25"
    by (simp add: series_defs input_defs label_defs)
  have nostd: "Durestd_Inss_min \<notin> set (index bare_row)"
    by (simp add: series_defs label_defs)
  have noopt: "Duropt_Inss_min \<notin> set (index bare_row)"
    by (simp add: series_defs label_defs)
  have a: "filter is_line (add_inss_lines ?row 0 (Some (3 / 5))) =
      [PlotLine 30 (Some (- (3 / 10))) (Some (3 / 10)) black 1.4]"
    using inss_markers[of ?row 30 0 "3 / 5" 25] std by simp
  have b: "filter is_point (add_inss_lines ?row 0 (Some (3 / 5))) = [PlotPoint 25 0 blue 6]"
    using inss_markers[of ?row 30 0 "3 / 5" 25] opt by simp
  have c: "filter is_line (add_inss_lines bare_row 0 (Some (3 / 5))) = []"
    using inss_markers[of bare_row 0 0 "3 / 5" 0] nostd by simp
  have d: "filter is_point (add_inss_lines bare_row 0 (Some (3 / 5))) = []"
    using inss_markers[of bare_row 0 0 "3 / 5" 0] noopt by simp
  have e: "list_all (\<lambda>d. is_line d \<or> is_point d) (add_inss_lines ?row 0 (Some (3 / 5)))"
    using inss_markers[of ?row 30 0 "3 / 5" 25] by (simp add: list_all_iff)
  from a b c d e show ?thesis by blast
qed

section \<open>The percentile segments\<close>

lemma zip_tl_upt: "zip ps (tl ps) = map (\<lambda>i. (ps ! i, ps ! Suc i)) [0 ..< length ps - 1]"
  by (rule nth_equalityI) (simp_all add: nth_tl)

lemma concat_map_if: "concat (map (\<lambda>x. if P x then [f x] else []) xs) = map f (filter P xs)"
  by (induction xs) simp_all

lemma py_min_Min: "ps \<noteq> [] \<Longrightarrow> py_min ps = Min (set ps)"
  by (cases ps) (simp_all add: py_min_def Min.set_eq_fold[symmetric])

lemma py_max_Max: "ps \<noteq> [] \<Longrightarrow> py_max ps = Max (set ps)"
  by (cases ps) (simp_all add: py_max_def Max.set_eq_fold[symmetric])

lemma segments_eq:
  "concat (map (segment idx height cmap ps) [0 ..< length ps - 1]) =
   map (pair_rect idx height cmap ps) (filter (\<lambda>(a, b). a < b) (zip ps (tl ps)))"
proof -
  have "segment idx height cmap ps = (\<lambda>i. if (\<lambda>(a, b). a < b) (ps ! i, ps ! Suc i)
          then [pair_rect idx height cmap ps (ps ! i, ps ! Suc i)] else [])"
    by (rule ext) (simp add: segment_def pair_rect_def Let_def)
  then have "concat (map (segment idx height cmap ps) [0 ..< length ps - 1]) =
      concat (map (\<lambda>ab. if (\<lambda>(a, b). a < b) ab then [pair_rect idx height cmap ps ab] else [])
                  (map (\<lambda>i. (ps ! i, ps ! Suc i)) [0 ..< length ps - 1]))"
    by (simp add: comp_def)
  then show ?thesis
    by (simp only: concat_map_if zip_tl_upt)
qed

lemma variation_bars:
  assumes "present_values row cols = Inr ps" "\<not> no_variation_flag row"
  shows "create_percentile_bars row idx height cmap cols =
     Inr (map (pair_rect idx height cmap ps) (filter (\<lambda>(a, b). a < b) (zip ps (tl ps))))"
proof (cases "length ps < 2")
  case True
  then have "tl ps = []"
    by (cases ps) simp_all
  then have z: "zip ps (tl ps) = []"
    by simp
  show ?thesis using True assms by (simp add: create_percentile_bars_def z)
next
  case False
  with assms segments_eq[of idx height cmap ps] show ?thesis
    by (simp add: create_percentile_bars_def)
qed

lemma rect_pair_rect [simp]:
  "is_rect (pair_rect idx height cmap ps ab)"
  "rect_x0 (pair_rect idx height cmap ps ab) = fst ab"
  "rect_x1 (pair_rect idx height cmap ps ab) = snd ab"
  by (simp_all add: pair_rect_def)

lemma bars_positive:
  assumes "create_percentile_bars row idx height cmap cols = Inr out" "r \<in> set out" "is_rect r"
  shows "rect_x0 r < rect_x1 r"
proof -
  obtain ps where ps: "present_values row cols = Inr ps"
    using assms(1) by (auto simp: create_percentile_bars_def split: sum.splits)
  show ?thesis
  proof (cases "no_variation_flag row")
    case True
    then show ?thesis
      using assms ps by (auto simp: create_percentile_bars_def split: if_splits)
  next
    case False
    from variation_bars[OF ps False, of idx height cmap] assms(1,2)
    show ?thesis by auto
  qed
qed

lemma present_values_ok:
  "set cols \<subseteq> set (index row) \<Longrightarrow> \<exists>ps. present_values row cols = Inr ps"
  by (induction cols) (auto simp: row_num_def)

lemma bars_ok:
  "set cols \<subseteq> set (index row) \<Longrightarrow> \<exists>out. create_percentile_bars row idx height cmap cols = Inr out"
  using present_values_ok[of cols row]
  by (auto simp: create_percentile_bars_def)

lemma add_inss_lines_eq:
  "add_inss_lines row idx height =
     (case cell_of row Durestd_Inss_min of None \<Rightarrow> []
      | Some x \<Rightarrow> [PlotLine x (nan2 (-) (Some (real idx)) (nan2 (/) height (Some 2)))
                              (nan2 (+) (Some (real idx)) (nan2 (/) height (Some 2))) black 1.4]) @
     (case cell_of row Duropt_Inss_min of None \<Rightarrow> [] | Some x \<Rightarrow> [PlotPoint x idx blue 6])"
  by (simp add: add_inss_lines_def cell_of_def)

lemma inss_no_rect: "r \<in> set (add_inss_lines row idx height) \<Longrightarrow> \<not> is_rect r"
  unfolding add_inss_lines_eq
  by (cases "cell_of row Durestd_Inss_min"; cases "cell_of row Duropt_Inss_min") auto

lemma labels_no_rect: "r \<in> set (add_labels row idx x_min x_max l m) \<Longrightarrow> \<not> is_rect r"
  by (auto simp: add_labels_def Let_def split: if_splits option.splits)

lemma emit_rows_positive:
  "r \<in> set (snd (emit_rows cmap cols heights x_min x_max irs)) \<Longrightarrow> is_rect r \<Longrightarrow> rect_x0 r < rect_x1 r"
proof (induction irs)
  case Nil
  then show ?case by simp
next
  case (Cons ir irs)
  obtain idx row where ir: "ir = (idx, row)" by (cases ir)
  show ?case
  proof (cases "length heights \<le> idx")
    case True
    with Cons.prems ir show ?thesis by simp
  next
    case False
    show ?thesis
    proof (cases "create_percentile_bars row idx (heights ! idx) cmap cols")
      case (Inl e)
      with Cons.prems ir False show ?thesis by simp
    next
      case (Inr bars)
      obtain err later where rest: "emit_rows cmap cols heights x_min x_max irs = (err, later)"
        by (cases "emit_rows cmap cols heights x_min x_max irs")
      from Cons.prems(1) ir False Inr rest
      have "r \<in> set bars \<or> r \<in> set (add_inss_lines row idx (heights ! idx)) \<or>
            r \<in> set (add_labels row idx x_min x_max LEFT_MARGIN RIGHT_MARGIN) \<or> r \<in> set later"
        by auto
      then show ?thesis
        using bars_positive[OF Inr] inss_no_rect labels_no_rect Cons.IH Cons.prems(2) rest
        by auto
    qed
  qed
qed

lemma emit_rows_ok:
  assumes "\<forall>(idx, row) \<in> set irs. idx < length heights \<and> set cols \<subseteq> set (index row)"
  shows "fst (emit_rows cmap cols heights x_min x_max irs) = None"
  using assms
proof (induction irs)
  case Nil
  then show ?case by simp
next
  case (Cons ir irs)
  obtain idx row where ir: "ir = (idx, row)" by (cases ir)
  from Cons.prems ir have idx: "idx < length heights" and sub: "set cols \<subseteq> set (index row)"
    by auto
  from bars_ok[OF sub] obtain bars where
    bars: "create_percentile_bars row idx (heights ! idx) cmap cols = Inr bars" by blast
  from Cons have "fst (emit_rows cmap cols heights x_min x_max irs) = None" by simp
  then obtain later where "emit_rows cmap cols heights x_min x_max irs = (None, later)"
    by (cases "emit_rows cmap cols heights x_min x_max irs") simp
  then show ?case using ir idx bars by simp
qed

lemma shading_no_rect: "r \<in> set (add_diagnosis_shading df) \<Longrightarrow> \<not> is_rect r"
  by (auto simp: add_diagnosis_shading_def shade_def split: if_splits)

lemma enumerate_iterrows:
  "(idx, row) \<in> set (enumerate 0 (iterrows df)) \<Longrightarrow> idx < length (rows df) \<and> index row = columns df"
  by (auto simp: in_set_enumerate_eq iterrows_def)

lemma chart_rows_ok: "fst (chart_rows cmap df) = None"
  unfolding chart_rows_def Let_def
  by (rule emit_rows_ok) (auto dest: enumerate_iterrows simp: length_calculate_bar_heights)

lemma nanmin_None: "nanmin xs = None \<longleftrightarrow> dropna xs = []"
  by (simp add: nanmin_def split: list.split)

lemma nanmax_None: "nanmax xs = None \<longleftrightarrow> dropna xs = []"
  by (simp add: nanmax_def split: list.split)

lemma dropna_empty: "dropna xs = [] \<longleftrightarrow> (\<forall>x \<in> set xs. x = None)"
  by (induction xs rule: dropna.induct) simp_all

lemma nan2_None: "nan2 f a (Some y) = None \<longleftrightarrow> a = None"
  by (cases a) (simp_all add: nan2_simps)

lemma no_limits:
  assumes "nanmin (map (\<lambda>col. nanmin (column_num df col)) cols) = None \<or>
           nanmax (map (\<lambda>col. nanmax (column_num df col)) cols) = None"
  shows "\<forall>col \<in> set cols. \<forall>c \<in> set (column_num df col). c = None"
proof (intro ballI)
  fix col c assume col: "col \<in> set cols" and c: "c \<in> set (column_num df col)"
  from assms have "nanmin (column_num df col) = None \<or> nanmax (column_num df col) = None"
    using col by (auto simp: nanmin_None nanmax_None dropna_empty)
  then have "dropna (column_num df col) = []"
    by (auto simp: nanmin_None nanmax_None)
  then show "c = None" using c by (simp add: dropna_empty)
qed

lemma chart_cases:
  "create_comparative_chart cmap df = (EmptyInput, []) \<or>
   create_comparative_chart cmap df = (MissingDomainColumns, []) \<or>
   (create_comparative_chart cmap df = (Failed ValueError, []) \<and>
    (\<forall>col \<in> set percentile_cols \<inter> set (columns df). \<forall>c \<in> set (column_num df col). c = None)) \<or>
   (\<exists>left right. create_comparative_chart cmap df =
      (Figure, SetXlim left right # snd (chart_rows cmap df) @ [InvertYaxis] @
               add_diagnosis_shading df @ customize_chart @ add_legend cmap @ [TightLayout]))"
proof -
  let ?cols = "filter (\<lambda>col. col \<in> set (columns df)) percentile_cols"
  let ?x_min = "nanmin (map (\<lambda>col. nanmin (column_num df col)) ?cols)"
  let ?x_max = "nanmax (map (\<lambda>col. nanmax (column_num df col)) ?cols)"
  obtain drawn where d: "chart_rows cmap df = (None, drawn)"
    using chart_rows_ok[of cmap df] by (cases "chart_rows cmap df") simp
  have none: "\<forall>col \<in> set percentile_cols \<inter> set (columns df). \<forall>c \<in> set (column_num df col). c = None"
    if "?x_min = None \<or> ?x_max = None"
    using no_limits[OF that] by simp
  show ?thesis
  proof (cases "rows df = [] \<or> columns df = []")
    case True
    then show ?thesis by (simp add: create_comparative_chart_def)
  next
    case nonempty: False
    show ?thesis
    proof (cases "?cols = []")
      case True
      with nonempty show ?thesis by (simp add: create_comparative_chart_def)
    next
      case cols: False
      show ?thesis
      proof (cases "?x_min = None \<or> ?x_max = None")
        case True
        then have "nan2 (-) ?x_min (Some LEFT_MARGIN) = None \<or>
                   nan2 (+) ?x_max (Some RIGHT_MARGIN) = None"
          by (simp add: nan2_None)
        then have "create_comparative_chart cmap df = (Failed ValueError, [])"
          using nonempty cols
          by (auto simp: create_comparative_chart_def Let_def split: option.split)
        with none[OF True] show ?thesis by blast
      next
        case False
        then obtain lo hi where "?x_min = Some lo" "?x_max = Some hi" by auto
        then show ?thesis
          using nonempty cols d
          unfolding chart_rows_def create_comparative_chart_def Let_def
          by (simp add: nan2_simps)
      qed
    qed
  qed
qed

lemma chart_failure:
  assumes "fst (create_comparative_chart cmap df) = Failed e"
  shows "e = ValueError \<and> snd (create_comparative_chart cmap df) = [] \<and>
     (\<forall>col \<in> set percentile_cols \<inter> set (columns df). \<forall>c \<in> set (column_num df col). c = None)"
  using chart_cases[of cmap df] assms by auto

lemma chart_rects_positive:
  assumes "r \<in> set (snd (create_comparative_chart cmap df))" "is_rect r"
  shows "rect_x0 r < rect_x1 r"
proof -
  have "r \<in> set (snd (chart_rows cmap df))"
    using assms shading_no_rect[of r df] chart_cases[of cmap df]
    by (auto simp: customize_chart_def add_legend_def)
  then show ?thesis
    using emit_rows_positive assms(2) unfolding chart_rows_def Let_def by blast
qed

lemmas chart_defs = crossed_df_def no_percentiles_df_def percentile_cols_def

text \<open>
  Claim C2. Whatever the frame, every rectangle among the calls the chart makes has its
  right edge strictly to the right of its left edge. In the branch that draws coloured
  segments, the rectangles of a row are, in order, exactly the adjacent pairs
  \<open>(v\<^sub>i, v\<^sub>i\<^sub>+\<^sub>1)\<close> of present values with \<open>v\<^sub>i < v\<^sub>i\<^sub>+\<^sub>1\<close>, drawn from \<open>v\<^sub>i\<close> to \<open>v\<^sub>i\<^sub>+\<^sub>1\<close>: a tie or a
  decreasing pair contributes no instruction and no error. The one way the chart ends
  in the exception handler is the \<^verbatim>\<open>ValueError\<close> of \<^verbatim>\<open>ax.set_xlim\<close>, raised before any row is
  visited and only when no percentile cell of the frame holds a number, that is, when no
  row has a pair at all.
\<close>

theorem rectangles_have_positive_width:
  "(\<forall>r \<in> set (snd (create_comparative_chart cmap df)). is_rect r \<longrightarrow> rect_x0 r < rect_x1 r) \<and>
   (\<forall>e. fst (create_comparative_chart cmap df) = Failed e \<longrightarrow>
      e = ValueError \<and> snd (create_comparative_chart cmap df) = [] \<and>
      (\<forall>col \<in> set percentile_cols \<inter> set (columns df). \<forall>c \<in> set (column_num df col). c = None)) \<and>
   (present_values row cols = Inr ps \<and> \<not> no_variation_flag row \<longrightarrow>
      (\<exists>out. create_percentile_bars row idx height cmap cols = Inr out \<and> list_all is_rect out \<and>
             map (\<lambda>r. (rect_x0 r, rect_x1 r)) out = filter (\<lambda>(a, b). a < b) (zip ps (tl ps))))"
proof -
  have "\<exists>out. create_percentile_bars row idx height cmap cols = Inr out \<and> list_all is_rect out \<and>
             map (\<lambda>r. (rect_x0 r, rect_x1 r)) out = filter (\<lambda>(a, b). a < b) (zip ps (tl ps))"
    if "present_values row cols = Inr ps" "\<not> no_variation_flag row"
    using variation_bars[OF that, of idx height cmap]
    by (simp add: list_all_iff comp_def)
  then show ?thesis
    using chart_rects_positive[of _ cmap df] chart_failure[of cmap df] by blast
qed

theorem rectangles_have_positive_width_witness:
  "fst (create_comparative_chart demo_cmap crossed_df) = Figure \<and>
   list_all (\<lambda>r. rect_x0 r < rect_x1 r) (filter is_rect (snd (create_comparative_chart demo_cmap crossed_df))) \<and>
   (\<exists>out. create_percentile_bars (hd (iterrows crossed_df)) 0 (Some (2 / 5)) demo_cmap PERCENTILE_COLUMNS = Inr out \<and>
      map (\<lambda>r. (rect_x0 r, rect_x1 r)) out = [(10, 15), (12, 30), (30, 35)]) \<and>
   create_comparative_chart demo_cmap blank_df = (Failed ValueError, [])"
proof -
  let ?row = "hd (iterrows crossed_df)"
  have vals: "present_values ?row PERCENTILE_COLUMNS = Inr [10, 15, 15, 12, 30, 35]"
    by (simp add: row_num_def iterrows_def chart_defs mk_cells_def label_defs)
  have flag: "\<not> no_variation_flag ?row"
    by (simp add: no_variation_flag_def iterrows_def chart_defs label_defs)
  have nonempty: "rows crossed_df \<noteq> [] \<and> columns crossed_df \<noteq> [] \<and>
      filter (\<lambda>col. col \<in> set (columns crossed_df)) percentile_cols \<noteq> []"
    by (simp add: chart_defs label_defs)
  have cell: "''Minmin'' \<in> set percentile_cols \<inter> set (columns crossed_df) \<and>
      Some 10 \<in> set (column_num crossed_df ''Minmin'')"
    by (simp add: column_num_def chart_defs mk_cells_def label_defs)
  have nf: "\<forall>e. fst (create_comparative_chart demo_cmap crossed_df) \<noteq> Failed e"
  proof (intro allI notI)
    fix e assume "fst (create_comparative_chart demo_cmap crossed_df) = Failed e"
    with rectangles_have_positive_width[of demo_cmap crossed_df ?row PERCENTILE_COLUMNS "[]" 0 None]
    have "\<forall>col \<in> set percentile_cols \<inter> set (columns crossed_df).
            \<forall>c \<in> set (column_num crossed_df col). c = None"
      by blast
    with cell show False by blast
  qed
  have a: "fst (create_comparative_chart demo_cmap crossed_df) = Figure"
    using nf nonempty
    by (auto simp: create_comparative_chart_def Let_def split: prod.splits option.splits)
  have b: "list_all (\<lambda>r. rect_x0 r < rect_x1 r)
             (filter is_rect (snd (create_comparative_chart demo_cmap crossed_df)))"
    using rectangles_have_positive_width[of demo_cmap crossed_df ?row PERCENTILE_COLUMNS "[]" 0 None]
    by (simp add: list_all_iff)
  have c: "\<exists>out. create_percentile_bars ?row 0 (Some (2 / 5)) demo_cmap PERCENTILE_COLUMNS = Inr out \<and>
      map (\<lambda>r. (rect_x0 r, rect_x1 r)) out = [(10, 15), (12, 30), (30, 35)]"
    using rectangles_have_positive_width[of demo_cmap crossed_df ?row PERCENTILE_COLUMNS
        "[10, 15, 15, 12, 30, 35]" 0 "Some (2 / 5)"] vals flag
    by auto
  have failed: "fst (create_comparative_chart demo_cmap blank_df) = Failed ValueError"
    by (simp add: create_comparative_chart_def blank_df_def percentile_cols_def column_num_def
        mk_cells_def nanmin_def nanmax_def nan2_def Let_def)
  have d: "create_comparative_chart demo_cmap blank_df = (Failed ValueError, [])"
    using rectangles_have_positive_width[of demo_cmap blank_df ?row PERCENTILE_COLUMNS "[]" 0 None]
      failed
    by (simp add: prod_eq_iff)
  from a b c d show ?thesis by blast
qed

text \<open>
  Claim C3. For a row whose flag is not set and that has at least two present percentile
  values, the segment between adjacent present values \<open>a < b\<close> has the colour the colormap
  gives at \<open>((a + b) / 2 - local_min) / (local_max - local_min)\<close>, where \<open>local_min\<close> and
  \<open>local_max\<close> are the least and the greatest present percentile value of that same row.
  The global domain of the chart does not enter, and the colour is the colormap at the
  normalised midpoint, not a mixture of the colours of the two ends.
\<close>

theorem segment_colour_from_local_range:
  "present_values row cols = Inr ps \<and> 2 \<le> length ps \<and> \<not> no_variation_flag row \<longrightarrow>
     create_percentile_bars row idx height cmap cols =
       Inr (map (\<lambda>(a, b). Barh idx (b - a) a height
                    (cmap (((a + b) / 2 - Min (set ps)) / (Max (set ps) - Min (set ps)))))
                (filter (\<lambda>(a, b). a < b) (zip ps (tl ps))))"
proof (intro impI, elim conjE)
  assume ps: "present_values row cols = Inr ps" and len: "2 \<le> length ps"
    and flag: "\<not> no_variation_flag row"
  have ne: "ps \<noteq> []" using len by auto
  have "pair_rect idx height cmap ps ab =
        (\<lambda>(a, b). Barh idx (b - a) a height
           (cmap (((a + b) / 2 - Min (set ps)) / (Max (set ps) - Min (set ps))))) ab"
    if ab: "ab \<in> set (filter (\<lambda>(a, b). a < b) (zip ps (tl ps)))" for ab
  proof -
    obtain a b where [simp]: "ab = (a, b)" by (cases ab)
    from ab have lt: "a < b" and a: "a \<in> set ps" and b': "b \<in> set (tl ps)"
      by (auto dest: set_zip_leftD set_zip_rightD)
    from b' ne have b: "b \<in> set ps" by (cases ps) simp_all
    have "Min (set ps) \<le> a" "b \<le> Max (set ps)" using a b by simp_all
    with lt have "Min (set ps) \<noteq> Max (set ps)" by linarith
    then show ?thesis
      by (simp add: pair_rect_def Normalize_def py_min_Min[OF ne] py_max_Max[OF ne])
  qed
  then show "create_percentile_bars row idx height cmap cols =
       Inr (map (\<lambda>(a, b). Barh idx (b - a) a height
                    (cmap (((a + b) / 2 - Min (set ps)) / (Max (set ps) - Min (set ps)))))
                (filter (\<lambda>(a, b). a < b) (zip ps (tl ps))))"
    unfolding variation_bars[OF ps flag]
    by (simp only: sum.inject) (rule map_cong[OF refl])
qed

theorem segment_colour_from_local_range_witness:
  "create_percentile_bars (hd (iterrows scenario_df)) 0 (Some (3 / 5)) demo_cmap PERCENTILE_COLUMNS =
     Inr [Barh 0 5 10 (Some (3 / 5)) (demo_cmap (1 / 10)),
          Barh 0 5 15 (Some (3 / 5)) (demo_cmap (3 / 10)),
          Barh 0 5 20 (Some (3 / 5)) (demo_cmap (5 / 10)),
          Barh 0 5 25 (Some (3 / 5)) (demo_cmap (7 / 10)),
          Barh 0 5 30 (Some (3 / 5)) (demo_cmap (9 / 10))]"
proof -
  let ?row = "hd (iterrows scenario_df)"
  have vals: "present_values ?row PERCENTILE_COLUMNS = Inr [10, 15, 20, 25, 30, 35]"
    by (simp add: row_num_def iterrows_def input_defs label_defs)
  have flag: "\<not> no_variation_flag ?row"
    by (simp add: no_variation_flag_def iterrows_def input_defs label_defs)
  from segment_colour_from_local_range[of ?row PERCENTILE_COLUMNS "[10, 15, 20, 25, 30, 35]" 0
      "Some (3 / 5)" demo_cmap] vals flag
  show ?thesis by simp
qed

text \<open>
  Claim C8. For a frame that is not empty (it has rows and columns) and has none of the
  six percentile columns, the chart returns the missing-columns error and has made no
  call on the axes: no rectangle, line, point, text or band.
\<close>

theorem missing_percentile_columns_abort:
  "rows df \<noteq> [] \<and> columns df \<noteq> [] \<and> (\<forall>col \<in> set percentile_cols. col \<notin> set (columns df)) \<longrightarrow>
     create_comparative_chart cmap df = (MissingDomainColumns, [])"
  by (auto simp: create_comparative_chart_def Let_def filter_empty_conv)

theorem missing_percentile_columns_abort_witness:
  "create_comparative_chart demo_cmap no_percentiles_df = (MissingDomainColumns, [])"
proof -
  have "rows no_percentiles_df \<noteq> [] \<and> columns no_percentiles_df \<noteq> [] \<and>
        (\<forall>col \<in> set percentile_cols. col \<notin> set (columns no_percentiles_df))"
    by (simp add: chart_defs label_defs)
  with missing_percentile_columns_abort[of no_percentiles_df demo_cmap] show ?thesis by blast
qed

section \<open>The group bands\<close>

lemma zip_shift: "zip xs (shift xs) = zip xs (None # xs)"
proof (cases "xs = []")
  case True
  then show ?thesis by (simp add: shift_def)
next
  case False
  show ?thesis
  proof (rule nth_equalityI)
    show "length (zip xs (shift xs)) = length (zip xs (None # xs))"
      using False by (simp add: shift_def)
  next
    fix i assume "i < length (zip xs (shift xs))"
    then have i: "i < length xs" by simp
    then have "(None # butlast xs) ! i = (None # xs) ! i"
      by (cases i) (simp_all add: nth_butlast)
    then show "zip xs (shift xs) ! i = zip xs (None # xs) ! i"
      using i False by (simp add: shift_def)
  qed
qed

lemma flags_adj: "map (\<lambda>(a, b). if ne a b then 1 else 0) (zip xs (p # xs)) = adj_flags p xs"
  by (induction xs arbitrary: p) simp_all

lemma maximal_runs_nonempty: "xs \<noteq> [] \<Longrightarrow> maximal_runs xs \<noteq> []"
  by (cases xs) (simp_all split: list.splits)

lemma maximal_runs_no_empty: "[] \<notin> set (maximal_runs xs)"
  by (induction xs) (auto split: list.splits if_splits)

lemma hd_maximal_runs: "xs \<noteq> [] \<Longrightarrow> hd (hd (maximal_runs xs)) = hd xs"
  by (cases xs) (simp_all split: list.splits)

lemma concat_maximal_runs: "concat (maximal_runs xs) = xs"
  by (induction xs) (auto split: list.splits)

lemma cumsum_run_ids:
  "xs \<noteq> [] \<Longrightarrow>
   cumsum_from acc (adj_flags p xs) = run_ids (acc + (if ne (hd xs) p then 1 else 0)) (maximal_runs xs)"
proof (induction xs arbitrary: acc p)
  case Nil
  then show ?case by simp
next
  case (Cons x xs)
  show ?case
  proof (cases "xs = []")
    case True
    then show ?thesis by simp
  next
    case False
    then obtain g gs where runs: "maximal_runs xs = g # gs"
      using maximal_runs_nonempty[of xs] by (cases "maximal_runs xs") auto
    have hd: "hd g = hd xs" using hd_maximal_runs[OF False] runs by simp
    have g: "g \<noteq> []" using maximal_runs_no_empty[of xs] runs by auto
    have IH: "cumsum_from a (adj_flags x xs) = run_ids (a + (if ne (hd xs) x then 1 else 0)) (g # gs)" for a
      using Cons.IH[OF False, of a x] runs by simp
    show ?thesis
    proof (cases "ne (hd xs) x")
      case True
      then show ?thesis using IH runs hd by simp
    next
      case False
      then show ?thesis using IH runs hd g by (simp add: replicate_app_Cons_same)
    qed
  qed
qed

lemma run_ids_ge: "i \<in> set (run_ids k gs) \<Longrightarrow> k \<le> i"
proof (induction gs arbitrary: k)
  case Nil
  then show ?case by simp
next
  case (Cons g gs)
  from Cons.prems have "i = k \<or> i \<in> set (run_ids (k + 1) gs)"
    by (auto split: if_splits)
  then show ?case using Cons.IH[of "k + 1"] by auto
qed

lemma count_list_replicate: "count_list (replicate n k) k = n"
  by (induction n) simp_all

lemma remdups_replicate_append:
  "0 < n \<Longrightarrow> k \<notin> set ys \<Longrightarrow> remdups (replicate n k @ ys) = k # remdups ys"
  by (induction n) (auto)

lemma groupby_size_run_ids:
  "[] \<notin> set gs \<Longrightarrow> groupby_size (run_ids k gs) = map (\<lambda>g. int (length g)) gs"
proof (induction gs arbitrary: k)
  case Nil
  then show ?case by (simp add: groupby_size_def)
next
  case (Cons g gs)
  let ?L = "run_ids (k + 1) gs"
  have g: "0 < length g" using Cons.prems by auto
  have notin: "k \<notin> set ?L" using run_ids_ge[of k "k + 1" gs] by auto
  have rd: "remdups (run_ids k (g # gs)) = k # remdups ?L"
    using remdups_replicate_append[OF g notin] by simp
  have "\<forall>y \<in> set (sort (remdups ?L)). k \<le> y"
    using run_ids_ge[of _ "k + 1" gs] by fastforce
  then have srt: "sort (k # remdups ?L) = k # sort (remdups ?L)"
    by (simp add: insort_is_Cons)
  have cnt_k: "count_list (run_ids k (g # gs)) k = length g"
    using notin by (simp add: count_list_0_iff count_list_replicate)
  have cnt: "count_list (run_ids k (g # gs)) j = count_list ?L j" if "j \<in> set (sort (remdups ?L))" for j
  proof -
    from that have "j \<in> set ?L" by simp
    then have "j \<noteq> k" using notin by auto
    then show ?thesis by simp
  qed
  have "groupby_size (run_ids k (g # gs)) =
        int (length g) # map (\<lambda>j. int (count_list (run_ids k (g # gs)) j)) (sort (remdups ?L))"
    unfolding groupby_size_def rd srt using cnt_k by simp
  also have "map (\<lambda>j. int (count_list (run_ids k (g # gs)) j)) (sort (remdups ?L)) =
             map (\<lambda>j. int (count_list ?L j)) (sort (remdups ?L))"
    using cnt by (intro map_cong) auto
  also have "\<dots> = groupby_size ?L" by (simp add: groupby_size_def)
  also have "\<dots> = map (\<lambda>g. int (length g)) gs" using Cons by simp
  finally show ?case by simp
qed

lemma spans_from_sizes:
  "zip (map (\<lambda>(c, s). c - s) (zip (cumsum_from a (map (\<lambda>g. int (length g)) gs)) (map (\<lambda>g. int (length g)) gs)))
       (cumsum_from a (map (\<lambda>g. int (length g)) gs)) = run_spans a gs"
  by (induction gs arbitrary: a) simp_all

text \<open>The bounds the program computes with \<^verbatim>\<open>shift\<close>, \<^verbatim>\<open>ne\<close>, \<^verbatim>\<open>cumsum\<close> and
  \<^verbatim>\<open>groupby(...).size()\<close> are the spans of the maximal runs.\<close>

lemma diagnosis_bounds_runs: "diagnosis_bounds labels = run_spans 0 (maximal_runs labels)"
proof (cases "labels = []")
  case True
  then show ?thesis
    by (simp add: diagnosis_bounds_def shift_def cumsum_def groupby_size_def)
next
  case False
  have first: "ne (hd labels) None" by (simp add: ne_def)
  have "cumsum (map (\<lambda>(a, b). if ne a b then 1 else 0) (zip labels (shift labels))) =
        run_ids 1 (maximal_runs labels)"
    using cumsum_run_ids[OF False, of 0 None] first
    by (simp add: cumsum_def zip_shift flags_adj)
  then show ?thesis
    by (simp add: diagnosis_bounds_def Let_def groupby_size_run_ids maximal_runs_no_empty
                  cumsum_def spans_from_sizes)
qed

lemma equal_run_Cons: "g \<noteq> [] \<Longrightarrow> equal_run (x # g) = (\<not> ne (hd g) x \<and> equal_run g)"
  by (cases g) simp_all

lemma separated_Cons: "gs \<noteq> [] \<Longrightarrow> separated (g # gs) = (ne (hd (hd gs)) (last g) \<and> separated gs)"
  by (cases gs) simp_all

text \<open>The runs of \<open>maximal_runs\<close> are what the specification asks for: they make up the
  sequence, none is empty, each holds equal neighbours, and adjacent runs differ where
  they meet.\<close>

lemma maximal_runs_sound:
  "concat (maximal_runs xs) = xs \<and> [] \<notin> set (maximal_runs xs) \<and>
   list_all equal_run (maximal_runs xs) \<and> separated (maximal_runs xs)"
proof -
  have eq: "list_all equal_run (maximal_runs xs)"
  proof (induction xs)
    case Nil
    then show ?case by simp
  next
    case (Cons x xs)
    show ?case
    proof (cases "maximal_runs xs")
      case Nil
      then show ?thesis by simp
    next
      case (Cons g gs)
      then have "g \<noteq> []" using maximal_runs_no_empty[of xs] by auto
      then show ?thesis using Cons.IH Cons by (simp add: equal_run_Cons)
    qed
  qed
  have sep: "separated (maximal_runs xs)"
  proof (induction xs)
    case Nil
    then show ?case by simp
  next
    case (Cons x xs)
    show ?case
    proof (cases "maximal_runs xs")
      case Nil
      then show ?thesis by simp
    next
      case (Cons g gs)
      then have g: "g \<noteq> []" using maximal_runs_no_empty[of xs] by auto
      show ?thesis
      proof (cases gs)
        case Nil
        then show ?thesis using Cons by simp
      next
        case (Cons h hs)
        then show ?thesis using Cons.IH \<open>maximal_runs xs = g # gs\<close> g by simp
      qed
    qed
  qed
  from eq sep show ?thesis
    by (simp add: concat_maximal_runs maximal_runs_no_empty)
qed

lemma tiles_run_spans:
  "[] \<notin> set gs \<Longrightarrow> tiles a (a + int (length (concat gs))) (run_spans a gs)"
proof (induction gs arbitrary: a)
  case Nil
  then show ?case by simp
next
  case (Cons g gs)
  then have "tiles (a + int (length g)) (a + int (length g) + int (length (concat gs)))
               (run_spans (a + int (length g)) gs)"
    by simp
  moreover have "0 < length g" using Cons.prems by auto
  ultimately show ?case by (simp add: add.assoc)
qed

lemma length_run_spans: "length (run_spans a gs) = length gs"
  by (induction gs arbitrary: a) simp_all

lemma bands_of_shading:
  "map band_span (filter is_band (concat (map shade ibs))) =
   map (\<lambda>(i, s, e). (real_of_int s - 0.2, real_of_int e - 0.2)) ibs"
  by (induction ibs) (auto simp: shade_def)

lemma map_snd_enumerate: "map snd (enumerate n xs) = xs"
  by (simp add: enumerate_eq_zip)

text \<open>
  Claim C5. For a frame with a diagnosis column and \<open>row_count\<close> rows, the bands drawn are
  those of the computed bounds, each from \<open>start - 0.2\<close> to \<open>stop - 0.2\<close>; the bounds
  \<open>[start, stop)\<close> tile \<open>[0, row_count)\<close> exactly, without gap or overlap; and the number of
  bands is the number of maximal runs of equal consecutive diagnosis values.
\<close>

theorem group_bands_partition_rows:
  "Diagnostico \<in> set (columns df) \<longrightarrow>
     map band_span (filter is_band (add_diagnosis_shading df)) =
       map (\<lambda>(s, e). (real_of_int s - 0.2, real_of_int e - 0.2))
           (diagnosis_bounds (column_str df Diagnostico)) \<and>
     tiles 0 (int (length (rows df))) (diagnosis_bounds (column_str df Diagnostico)) \<and>
     length (filter is_band (add_diagnosis_shading df)) =
       length (maximal_runs (column_str df Diagnostico))"
proof
  assume col: "Diagnostico \<in> set (columns df)"
  let ?labels = "column_str df Diagnostico"
  let ?bs = "diagnosis_bounds ?labels"
  have spans: "map band_span (filter is_band (add_diagnosis_shading df)) =
       map (\<lambda>(s, e). (real_of_int s - 0.2, real_of_int e - 0.2)) ?bs"
  proof -
    have "map band_span (filter is_band (add_diagnosis_shading df)) =
          map (\<lambda>(i, s, e). (real_of_int s - 0.2, real_of_int e - 0.2)) (enumerate 0 ?bs)"
      using col by (simp add: add_diagnosis_shading_def bands_of_shading)
    also have "\<dots> = map ((\<lambda>(s, e). (real_of_int s - 0.2, real_of_int e - 0.2)) \<circ> snd) (enumerate 0 ?bs)"
      by (rule map_cong) auto
    also have "\<dots> = map (\<lambda>(s, e). (real_of_int s - 0.2, real_of_int e - 0.2)) ?bs"
      by (simp only: map_map[symmetric] map_snd_enumerate)
    finally show ?thesis .
  qed
  have "length (concat (maximal_runs ?labels)) = length (rows df)"
    by (simp add: concat_maximal_runs column_str_def)
  then have tl: "tiles 0 (int (length (rows df))) ?bs"
    using tiles_run_spans[OF maximal_runs_no_empty, of 0 ?labels]
    by (simp add: diagnosis_bounds_runs)
  have "length (map band_span (filter is_band (add_diagnosis_shading df))) = length ?bs"
    unfolding spans by simp
  then have len: "length (filter is_band (add_diagnosis_shading df)) = length (maximal_runs ?labels)"
    by (simp add: diagnosis_bounds_runs length_run_spans)
  from spans tl len
  show "map band_span (filter is_band (add_diagnosis_shading df)) =
       map (\<lambda>(s, e). (real_of_int s - 0.2, real_of_int e - 0.2)) ?bs \<and>
     tiles 0 (int (length (rows df))) ?bs \<and>
     length (filter is_band (add_diagnosis_shading df)) = length (maximal_runs ?labels)"
    by blast
qed

text \<open>
  Claim C6. For a frame with a diagnosis column, the calls of the band builder are, run
  after run of the maximal runs of equal consecutive diagnosis values: for run \<open>i\<close>
  (counted from 0) spanning \<open>[start, stop)\<close>, one band from \<open>start - 0.2\<close> to \<open>stop - 0.2\<close>,
  light gray when \<open>i\<close> is even and white when \<open>i\<close> is odd, at opacity 0.2, followed by one
  separator line at \<open>start - 0.2\<close> when \<open>i \<noteq> 0\<close> and by nothing when \<open>i = 0\<close>.
\<close>

theorem bands_and_separators_per_run:
  "Diagnostico \<in> set (columns df) \<longrightarrow>
     add_diagnosis_shading df =
       concat (map (\<lambda>(i, s, e).
                 Axhspan (real_of_int s - 0.2) (real_of_int e - 0.2)
                         (if even i then light_gray else Named ''white'') 0.2 #
                 (if i = 0 then [] else [Axhline (real_of_int s - 0.2) (Named ''gray'') 0.6]))
               (enumerate 0 (run_spans 0 (maximal_runs (column_str df Diagnostico)))))"
proof
  assume col: "Diagnostico \<in> set (columns df)"
  have "shade = (\<lambda>(i, s, e).
                 Axhspan (real_of_int s - 0.2) (real_of_int e - 0.2)
                         (if even i then light_gray else Named ''white'') 0.2 #
                 (if i = 0 then [] else [Axhline (real_of_int s - 0.2) (Named ''gray'') 0.6]))"
    by (rule ext) (auto simp: shade_def even_iff_mod_2_eq_zero)
  then show "add_diagnosis_shading df =
       concat (map (\<lambda>(i, s, e).
                 Axhspan (real_of_int s - 0.2) (real_of_int e - 0.2)
                         (if even i then light_gray else Named ''white'') 0.2 #
                 (if i = 0 then [] else [Axhline (real_of_int s - 0.2) (Named ''gray'') 0.6]))
               (enumerate 0 (run_spans 0 (maximal_runs (column_str df Diagnostico)))))"
    using col by (simp add: add_diagnosis_shading_def diagnosis_bounds_runs)
qed

lemma scenario_labels:
  "Diagnostico \<in> set (columns scenario_df) \<and>
   column_str scenario_df Diagnostico = [Some ''A'', Some ''A'', Some ''B'']"
  by (simp add: column_str_def input_defs label_defs)

theorem group_bands_partition_rows_witness:
  "map band_span (filter is_band (add_diagnosis_shading scenario_df)) = [(- 1 / 5, 9 / 5), (9 / 5, 14 / 5)] \<and>
   tiles 0 3 (diagnosis_bounds (column_str scenario_df Diagnostico)) \<and>
   length (filter is_band (add_diagnosis_shading scenario_df)) = 2"
proof -
  have bounds: "diagnosis_bounds [Some ''A'', Some ''A'', Some ''B''] = [(0, 2), (2, 3)]"
    by (simp add: diagnosis_bounds_runs ne_def)
  have rows: "length (rows scenario_df) = 3"
    by (simp add: input_defs)
  from group_bands_partition_rows[of scenario_df] scenario_labels bounds rows
  show ?thesis by (simp add: ne_def)
qed

theorem bands_and_separators_per_run_witness:
  "add_diagnosis_shading scenario_df =
     [Axhspan (- 1 / 5) (9 / 5) light_gray (1 / 5),
      Axhspan (9 / 5) (14 / 5) (Named ''white'') (1 / 5),
      Axhline (9 / 5) (Named ''gray'') (3 / 5)]"
proof -
  from bands_and_separators_per_run[of scenario_df] scenario_labels
  show ?thesis by (simp add: ne_def)
qed

section \<open>The ingestion stage\<close>

lemma nunique_card: "nunique vs = card (set (dropna vs))"
  by (simp add: nunique_def length_remdups_card_conv)

lemma set_dropna_cells:
  "set (dropna (map (num r) cols)) = {v. \<exists>col \<in> set cols. num r col = Some v}"
  by (force simp: mem_dropna image_iff)

lemma flag_set_difference [simp]: "flag (set_difference label col r) = flag r"
  by (simp add: set_difference_def)

lemma num_set_difference:
  "num (set_difference label col r) c =
     (if c = label then nan2 (-) (num r col) (num r P60min) else num r c)"
  by (simp add: set_difference_def)

lemma num_set_percentiles_iguales [simp]: "num (set_percentiles_iguales cols r) = num r"
  by (simp add: set_percentiles_iguales_def)

lemma flag_set_percentiles_iguales:
  "flag (set_percentiles_iguales cols r) percentiles_iguales = (nunique (map (num r) cols) = 1)"
  by (simp add: set_percentiles_iguales_def)

lemma set_add_column: "set (add_column c cols) = insert c (set cols)"
  by (auto simp: add_column_def)

lemma length_rows_additional [simp]:
  "length (rows (calculate_additional_fields df)) = length (rows df)"
  by (simp add: calculate_additional_fields_def Let_def)

lemma columns_additional: "set (columns df) \<subseteq> set (columns (calculate_additional_fields df))"
  by (auto simp: calculate_additional_fields_def Let_def set_add_column)

lemma flag_additional:
  assumes "filter (\<lambda>col. col \<in> set (columns df)) PERCENTILE_COLUMNS \<noteq> []" "i < length (rows df)"
  shows "flag (rows (calculate_additional_fields df) ! i) percentiles_iguales =
     (nunique (map (num (rows df ! i)) (filter (\<lambda>col. col \<in> set (columns df)) PERCENTILE_COLUMNS)) = 1)"
  using assms
  by (simp add: calculate_additional_fields_def Let_def flag_set_percentiles_iguales)

lemma flag_column_additional:
  "filter (\<lambda>col. col \<in> set (columns df)) PERCENTILE_COLUMNS \<noteq> [] \<Longrightarrow>
   percentiles_iguales \<in> set (columns (calculate_additional_fields df))"
  by (auto simp: calculate_additional_fields_def Let_def set_add_column)

text \<open>
  Claim C10. When the frame has at least one percentile column, the ingestion stage adds
  the column \<open>percentiles_iguales\<close>, and the flag of a row is true if and only if the row
  has exactly one distinct value that is not missing across the percentile columns of the
  frame. In particular a row with a single present value is flagged true, and a row whose
  percentile values are all missing is flagged false.
\<close>

theorem percentiles_iguales_iff_one_distinct_value:
  "filter (\<lambda>col. col \<in> set (columns df)) PERCENTILE_COLUMNS \<noteq> [] \<and> i < length (rows df) \<longrightarrow>
     percentiles_iguales \<in> set (columns (calculate_additional_fields df)) \<and>
     flag (rows (calculate_additional_fields df) ! i) percentiles_iguales =
       (card (distinct_percentiles df (rows df ! i)) = 1) \<and>
     (distinct_percentiles df (rows df ! i) = {v} \<longrightarrow>
        flag (rows (calculate_additional_fields df) ! i) percentiles_iguales) \<and>
     (distinct_percentiles df (rows df ! i) = {} \<longrightarrow>
        \<not> flag (rows (calculate_additional_fields df) ! i) percentiles_iguales)"
proof (intro impI, elim conjE)
  assume cols: "filter (\<lambda>col. col \<in> set (columns df)) PERCENTILE_COLUMNS \<noteq> []"
    and i: "i < length (rows df)"
  have "set (dropna (map (num (rows df ! i)) (filter (\<lambda>col. col \<in> set (columns df)) PERCENTILE_COLUMNS))) =
        distinct_percentiles df (rows df ! i)"
    by (auto simp: set_dropna_cells distinct_percentiles_def)
  then have eq: "flag (rows (calculate_additional_fields df) ! i) percentiles_iguales =
       (card (distinct_percentiles df (rows df ! i)) = 1)"
    by (simp add: flag_additional[OF cols i] nunique_card)
  show "percentiles_iguales \<in> set (columns (calculate_additional_fields df)) \<and>
     flag (rows (calculate_additional_fields df) ! i) percentiles_iguales =
       (card (distinct_percentiles df (rows df ! i)) = 1) \<and>
     (distinct_percentiles df (rows df ! i) = {v} \<longrightarrow>
        flag (rows (calculate_additional_fields df) ! i) percentiles_iguales) \<and>
     (distinct_percentiles df (rows df ! i) = {} \<longrightarrow>
        \<not> flag (rows (calculate_additional_fields df) ! i) percentiles_iguales)"
    using flag_column_additional[OF cols] eq by simp
qed

theorem percentiles_iguales_iff_one_distinct_value_witness:
  "flag (rows (calculate_additional_fields flags_df) ! 0) percentiles_iguales \<and>
   flag (rows (calculate_additional_fields flags_df) ! 1) percentiles_iguales \<and>
   \<not> flag (rows (calculate_additional_fields flags_df) ! 2) percentiles_iguales \<and>
   \<not> flag (rows (calculate_additional_fields flags_df) ! 3) percentiles_iguales"
proof -
  have cols: "filter (\<lambda>col. col \<in> set (columns flags_df)) PERCENTILE_COLUMNS \<noteq> []"
    by (simp add: flags_df_def label_defs)
  have inter: "set PERCENTILE_COLUMNS \<inter> set (columns flags_df) = {''Minmin'', ''P20min''}"
    by (auto simp: flags_df_def label_defs)
  have d0: "distinct_percentiles flags_df (rows flags_df ! 0) = {20}"
    unfolding distinct_percentiles_def inter by (auto simp: flags_df_def mk_cells_def)
  have d1: "distinct_percentiles flags_df (rows flags_df ! 1) = {20}"
    unfolding distinct_percentiles_def inter by (auto simp: flags_df_def mk_cells_def)
  have d2: "distinct_percentiles flags_df (rows flags_df ! 2) = {}"
    unfolding distinct_percentiles_def inter by (auto simp: flags_df_def mk_cells_def)
  have d3: "distinct_percentiles flags_df (rows flags_df ! 3) = {10, 20}"
    unfolding distinct_percentiles_def inter by (auto simp: flags_df_def mk_cells_def)
  have len: "length (rows flags_df) = 4" by (simp add: flags_df_def)
  have a: "flag (rows (calculate_additional_fields flags_df) ! 0) percentiles_iguales"
    using percentiles_iguales_iff_one_distinct_value[of flags_df 0 20] cols len d0 by simp
  have b: "flag (rows (calculate_additional_fields flags_df) ! 1) percentiles_iguales"
    using percentiles_iguales_iff_one_distinct_value[of flags_df 1 20] cols len d1 by simp
  have c: "\<not> flag (rows (calculate_additional_fields flags_df) ! 2) percentiles_iguales"
    using percentiles_iguales_iff_one_distinct_value[of flags_df 2 20] cols len d2 by simp
  have d: "\<not> flag (rows (calculate_additional_fields flags_df) ! 3) percentiles_iguales"
    using percentiles_iguales_iff_one_distinct_value[of flags_df 3 20] cols len d3 by simp
  from a b c d show ?thesis by blast
qed

lemma columns_keep_rows [simp]: "columns (keep_rows p df) = columns df"
  by (simp add: keep_rows_def)

lemma rows_keep_rows [simp]: "rows (keep_rows p df) = filter p (rows df)"
  by (simp add: keep_rows_def)

lemma fold_keep_columns:
  "columns (fold (\<lambda>col d. if col \<in> set (columns d) then keep_rows (q col) d else d) cols df) = columns df"
  by (induction cols arbitrary: df) simp_all

lemma fold_keep_rows:
  "r \<in> set (rows (fold (\<lambda>col d. if col \<in> set (columns d) then keep_rows (q col) d else d) cols df)) \<longleftrightarrow>
   r \<in> set (rows df) \<and> (\<forall>col \<in> set cols. col \<in> set (columns df) \<longrightarrow> q col r)"
  by (induction cols arbitrary: df) auto

lemma columns_validate_ranges [simp]: "columns (validate_ranges df) = columns df"
  by (simp add: validate_ranges_def Let_def fold_keep_columns)

lemma rows_validate_ranges:
  assumes "r \<in> set (rows (validate_ranges df))"
  shows "r \<in> set (rows df)"
    and "col \<in> set ([Durestd_Inss_min, Duropt_Inss_min] @ PERCENTILE_COLUMNS) \<Longrightarrow>
         col \<in> set (columns df) \<Longrightarrow> num_holds (\<lambda>x. 0 \<le> x) (num r col)"
    and "Count_Episodios \<in> set (columns df) \<Longrightarrow>
         num_holds (\<lambda>x. MIN_EPISODIOS \<le> x) (num r Count_Episodios) \<and>
         num_holds (\<lambda>x. x \<le> MAX_EPISODIOS) (num r Count_Episodios)"
proof -
  let ?step = "\<lambda>col d. if col \<in> set (columns d)
                  then keep_rows (\<lambda>r. num_holds (\<lambda>x. 0 \<le> x) (num r col)) d else d"
  let ?df1 = "fold ?step ([Durestd_Inss_min, Duropt_Inss_min] @ PERCENTILE_COLUMNS) df"
  have in1: "r \<in> set (rows ?df1)"
    using assms by (auto simp: validate_ranges_def Let_def split: if_splits)
  have in1': "r \<in> set (rows df) \<and>
      (\<forall>col \<in> set ([Durestd_Inss_min, Duropt_Inss_min] @ PERCENTILE_COLUMNS).
          col \<in> set (columns df) \<longrightarrow> num_holds (\<lambda>x. 0 \<le> x) (num r col))"
    using in1 fold_keep_rows[of r "\<lambda>col r. num_holds (\<lambda>x. 0 \<le> x) (num r col)"
        "[Durestd_Inss_min, Duropt_Inss_min] @ PERCENTILE_COLUMNS" df]
    by blast
  from in1' show "r \<in> set (rows df)" by simp
  from in1' show "col \<in> set ([Durestd_Inss_min, Duropt_Inss_min] @ PERCENTILE_COLUMNS) \<Longrightarrow>
         col \<in> set (columns df) \<Longrightarrow> num_holds (\<lambda>x. 0 \<le> x) (num r col)"
    by blast
  have c1: "columns ?df1 = columns df"
    by (rule fold_keep_columns)
  show "Count_Episodios \<in> set (columns df) \<Longrightarrow>
         num_holds (\<lambda>x. MIN_EPISODIOS \<le> x) (num r Count_Episodios) \<and>
         num_holds (\<lambda>x. x \<le> MAX_EPISODIOS) (num r Count_Episodios)"
    using assms unfolding validate_ranges_def Let_def c1 by simp
qed

lemma dropna_rows_Inr:
  assumes "dropna_rows labels df = Inr d"
  shows "set labels \<subseteq> set (columns df)" and "columns d = columns df"
    and "rows d = filter (\<lambda>r. list_all (\<lambda>c. num r c \<noteq> None) labels) (rows df)"
proof -
  from assms have e: "filter (\<lambda>c. c \<notin> set (columns df)) labels = []"
    by (auto simp: dropna_rows_def split: list.splits)
  then show "set labels \<subseteq> set (columns df)"
    by (auto simp: filter_empty_conv)
  from assms e show "columns d = columns df"
    by (auto simp: dropna_rows_def)
  from assms e show "rows d = filter (\<lambda>r. list_all (\<lambda>c. num r c \<noteq> None) labels) (rows df)"
    by (auto simp: dropna_rows_def)
qed

lemma numeric_columns_split:
  "set NUMERIC_COLUMNS = insert Count_Episodios (set ([Durestd_Inss_min, Duropt_Inss_min] @ PERCENTILE_COLUMNS))"
  by (auto simp: NUMERIC_COLUMNS_def label_defs)

lemma count_not_duration:
  "Count_Episodios \<notin> set ([Durestd_Inss_min, Duropt_Inss_min] @ PERCENTILE_COLUMNS)"
  by (simp add: label_defs)

lemma clean_data_Inr:
  assumes "clean_data df = Inr d"
  shows "set NUMERIC_COLUMNS \<subseteq> set (columns d)" and "r \<in> set (rows d) \<Longrightarrow> pipeline_row_ok r"
proof -
  from assms obtain d0 where d0: "dropna_rows NUMERIC_COLUMNS df = Inr d0" and d: "d = validate_ranges d0"
    by (auto simp: clean_data_def split: sum.splits)
  note dr = dropna_rows_Inr[OF d0]
  show cols: "set NUMERIC_COLUMNS \<subseteq> set (columns d)"
    using dr(1,2) d by simp
  assume r: "r \<in> set (rows d)"
  then have rv: "r \<in> set (rows (validate_ranges d0))" using d by simp
  have cols0: "set NUMERIC_COLUMNS \<subseteq> set (columns d0)" using dr(1,2) by simp
  have present: "num r col \<noteq> None" if "col \<in> set NUMERIC_COLUMNS" for col
    using rows_validate_ranges(1)[OF rv] dr(3) that by (auto simp: list_all_iff)
  have nonneg: "num_holds (\<lambda>x. 0 \<le> x) (num r col)"
    if "col \<in> set ([Durestd_Inss_min, Duropt_Inss_min] @ PERCENTILE_COLUMNS)" for col
  proof -
    from that have "col \<in> set NUMERIC_COLUMNS" unfolding numeric_columns_split by blast
    then have "col \<in> set (columns d0)" using cols0 by blast
    with rows_validate_ranges(2)[OF rv that] show ?thesis .
  qed
  have "Count_Episodios \<in> set (columns d0)"
    using cols0 unfolding numeric_columns_split by blast
  from rows_validate_ranges(3)[OF rv this]
  have count: "\<exists>n. num r Count_Episodios = Some n \<and> MIN_EPISODIOS \<le> n \<and> n \<le> MAX_EPISODIOS"
    by (cases "num r Count_Episodios") (simp_all add: num_holds_def)
  have "\<exists>v. num r col = Some v \<and> (col \<noteq> Count_Episodios \<longrightarrow> 0 \<le> v)"
    if c: "col \<in> set NUMERIC_COLUMNS" for col
  proof (cases "col = Count_Episodios")
    case True
    then show ?thesis using count by auto
  next
    case False
    then have "col \<in> set ([Durestd_Inss_min, Duropt_Inss_min] @ PERCENTILE_COLUMNS)"
      using c unfolding numeric_columns_split by blast
    from nonneg[OF this] show ?thesis
      by (cases "num r col") (simp_all add: num_holds_def)
  qed
  with count show "pipeline_row_ok r"
    unfolding pipeline_row_ok_def by blast
qed

lemma set_insert_row [simp]: "set (insert_row lt r xs) = insert r (set xs)"
  by (induction xs) auto

lemma set_sort_rows [simp]: "set (sort_rows lt rs) = set rs"
  unfolding sort_rows_def by (induction rs) simp_all

lemma columns_sort_data [simp]: "columns (sort_data df) = columns df"
  by (simp add: sort_data_def Let_def)

lemma rows_sort_data:
  "r' \<in> set (rows (sort_data df)) \<Longrightarrow> \<exists>r \<in> set (rows df). num r' = num r"
  by (auto simp: sort_data_def Let_def split: if_splits)

lemma differences_not_numeric:
  "diferencia_estandar \<notin> set NUMERIC_COLUMNS" "diferencia_optima \<notin> set NUMERIC_COLUMNS"
  by (simp_all add: NUMERIC_COLUMNS_def label_defs)

lemma rows_additional:
  assumes "r' \<in> set (rows (calculate_additional_fields df))"
  shows "\<exists>r \<in> set (rows df). \<forall>col \<in> set NUMERIC_COLUMNS. num r' col = num r col"
  using assms differences_not_numeric
  by (auto simp: calculate_additional_fields_def Let_def num_set_difference split: if_splits)

lemma pipeline_row_ok_cong:
  "pipeline_row_ok r \<Longrightarrow> \<forall>col \<in> set NUMERIC_COLUMNS. num r' col = num r col \<Longrightarrow> pipeline_row_ok r'"
  unfolding pipeline_row_ok_def numeric_columns_split by simp

lemma load_rows_ok:
  assumes "load_and_process_data raw = Inr df"
  shows "set NUMERIC_COLUMNS \<subseteq> set (columns df)" and "r \<in> set (rows df) \<Longrightarrow> pipeline_row_ok r"
proof -
  from assms obtain d where d: "clean_data (rename_columns raw) = Inr d"
    and df: "df = calculate_additional_fields (sort_data d)"
    by (auto simp: load_and_process_data_def split: if_splits sum.splits)
  show "set NUMERIC_COLUMNS \<subseteq> set (columns df)"
    using clean_data_Inr(1)[OF d] columns_additional[of "sort_data d"] df by auto
  assume "r \<in> set (rows df)"
  then obtain r1 where r1: "r1 \<in> set (rows (sort_data d))"
      and e1: "\<forall>col \<in> set NUMERIC_COLUMNS. num r col = num r1 col"
    using rows_additional df by blast
  from rows_sort_data[OF r1] obtain r0 where r0: "r0 \<in> set (rows d)" and e0: "num r1 = num r0"
    by blast
  from clean_data_Inr(2)[OF d r0] have "pipeline_row_ok r0" .
  then show "pipeline_row_ok r"
    by (rule pipeline_row_ok_cong) (simp add: e1 e0)
qed

lemma present_values_all:
  "set cs \<subseteq> set (index row) \<Longrightarrow> \<forall>c \<in> set cs. num (vals row) c \<noteq> None \<Longrightarrow>
   \<exists>vs. present_values row cs = Inr vs \<and> map Some vs = map (num (vals row)) cs"
proof (induction cs)
  case Nil
  then show ?case by simp
next
  case (Cons c cs)
  then obtain vs where vs: "present_values row cs = Inr vs" "map Some vs = map (num (vals row)) cs"
    by auto
  from Cons.prems obtain v where v: "num (vals row) c = Some v" by auto
  from Cons.prems have "c \<in> set (index row)" by simp
  then show ?case using vs v by (simp add: row_num_def)
qed

lemma percentile_cols_numeric: "set percentile_cols \<subseteq> set NUMERIC_COLUMNS"
  by (simp add: percentile_cols_def NUMERIC_COLUMNS_def)

lemma inss_cols_numeric:
  "Durestd_Inss_min \<in> set NUMERIC_COLUMNS" "Duropt_Inss_min \<in> set NUMERIC_COLUMNS"
  by (simp_all add: NUMERIC_COLUMNS_def label_defs)

lemma pipeline_row_renders:
  assumes ok: "pipeline_row_ok r" and cols: "set NUMERIC_COLUMNS \<subseteq> set cols"
  shows "\<exists>vs. present_values \<lparr>index = cols, vals = r\<rparr> (filter (\<lambda>col. col \<in> set cols) percentile_cols) = Inr vs \<and>
              map Some vs = map (num r) percentile_cols"
    and "\<exists>s p. add_inss_lines \<lparr>index = cols, vals = r\<rparr> idx height =
           [PlotLine s (nan2 (-) (Some (real idx)) (nan2 (/) height (Some 2)))
                       (nan2 (+) (Some (real idx)) (nan2 (/) height (Some 2))) black 1.4,
            PlotPoint p idx blue 6]"
proof -
  let ?row = "\<lparr>index = cols, vals = r\<rparr>"
  have numeric: "\<forall>col \<in> set NUMERIC_COLUMNS. \<exists>v. num r col = Some v \<and> (col \<noteq> Count_Episodios \<longrightarrow> 0 \<le> v)"
    using ok unfolding pipeline_row_ok_def by (rule conjunct1)
  have "\<forall>col \<in> set percentile_cols. col \<in> set cols"
    using cols percentile_cols_numeric by blast
  then have all: "filter (\<lambda>col. col \<in> set cols) percentile_cols = percentile_cols"
    by (rule filter_True)
  have pres: "\<forall>c \<in> set percentile_cols. num (vals ?row) c \<noteq> None"
  proof
    fix c assume "c \<in> set percentile_cols"
    then have "c \<in> set NUMERIC_COLUMNS" using percentile_cols_numeric by blast
    with numeric obtain v where "num r c = Some v" by blast
    then show "num (vals ?row) c \<noteq> None" by simp
  qed
  have sub: "set percentile_cols \<subseteq> set (index ?row)"
    using cols percentile_cols_numeric by simp
  from present_values_all[OF sub pres]
  show "\<exists>vs. present_values ?row (filter (\<lambda>col. col \<in> set cols) percentile_cols) = Inr vs \<and>
              map Some vs = map (num r) percentile_cols"
    unfolding all by simp
  from numeric inss_cols_numeric(1) obtain s where s: "num r Durestd_Inss_min = Some s" by blast
  from numeric inss_cols_numeric(2) obtain p where p: "num r Duropt_Inss_min = Some p" by blast
  have c1: "cell_of ?row Durestd_Inss_min = Some s"
    using cols inss_cols_numeric(1) s by (auto simp: cell_of_def)
  have c2: "cell_of ?row Duropt_Inss_min = Some p"
    using cols inss_cols_numeric(2) p by (auto simp: cell_of_def)
  show "\<exists>s p. add_inss_lines ?row idx height =
           [PlotLine s (nan2 (-) (Some (real idx)) (nan2 (/) height (Some 2)))
                       (nan2 (+) (Some (real idx)) (nan2 (/) height (Some 2))) black 1.4,
            PlotPoint p idx blue 6]"
    unfolding add_inss_lines_eq c1 c2 by simp
qed

text \<open>
  Claim C9. Every row \<open>r\<close> of a frame that \<open>load_and_process_data\<close> returns has a number in
  each of the nine numeric columns; the two durations and the six percentiles are not
  negative; the episode count lies in \<open>[MIN_EPISODIOS, MAX_EPISODIOS]\<close>. Hence, for such a
  row, the renderer finds all six percentile values present (none is dropped from the
  list, whose length is six, so the "fewer than two" return is not taken), and it draws
  both the standard line and the optimal point.
\<close>

theorem pipeline_rows_complete_and_in_range:
  "load_and_process_data raw = Inr df \<and> r \<in> set (rows df) \<longrightarrow>
     set NUMERIC_COLUMNS \<subseteq> set (columns df) \<and>
     (\<forall>col \<in> set NUMERIC_COLUMNS. \<exists>v. num r col = Some v \<and> (col \<noteq> Count_Episodios \<longrightarrow> 0 \<le> v)) \<and>
     (\<exists>n. num r Count_Episodios = Some n \<and> MIN_EPISODIOS \<le> n \<and> n \<le> MAX_EPISODIOS) \<and>
     (\<exists>vs. present_values \<lparr>index = columns df, vals = r\<rparr>
              (filter (\<lambda>col. col \<in> set (columns df)) percentile_cols) = Inr vs \<and>
           map Some vs = map (num r) percentile_cols) \<and>
     (\<exists>s p. add_inss_lines \<lparr>index = columns df, vals = r\<rparr> idx height =
           [PlotLine s (nan2 (-) (Some (real idx)) (nan2 (/) height (Some 2)))
                       (nan2 (+) (Some (real idx)) (nan2 (/) height (Some 2))) black 1.4,
            PlotPoint p idx blue 6])"
proof (intro impI, elim conjE)
  assume load: "load_and_process_data raw = Inr df" and r: "r \<in> set (rows df)"
  note cols = load_rows_ok(1)[OF load]
  note ok = load_rows_ok(2)[OF load r]
  have a: "\<forall>col \<in> set NUMERIC_COLUMNS. \<exists>v. num r col = Some v \<and> (col \<noteq> Count_Episodios \<longrightarrow> 0 \<le> v)"
    using ok unfolding pipeline_row_ok_def by (rule conjunct1)
  have b: "\<exists>n. num r Count_Episodios = Some n \<and> MIN_EPISODIOS \<le> n \<and> n \<le> MAX_EPISODIOS"
    using ok unfolding pipeline_row_ok_def by (rule conjunct2)
  note c = pipeline_row_renders(1)[OF ok cols]
  note d = pipeline_row_renders(2)[OF ok cols, of idx height]
  show "set NUMERIC_COLUMNS \<subseteq> set (columns df) \<and>
     (\<forall>col \<in> set NUMERIC_COLUMNS. \<exists>v. num r col = Some v \<and> (col \<noteq> Count_Episodios \<longrightarrow> 0 \<le> v)) \<and>
     (\<exists>n. num r Count_Episodios = Some n \<and> MIN_EPISODIOS \<le> n \<and> n \<le> MAX_EPISODIOS) \<and>
     (\<exists>vs. present_values \<lparr>index = columns df, vals = r\<rparr>
              (filter (\<lambda>col. col \<in> set (columns df)) percentile_cols) = Inr vs \<and>
           map Some vs = map (num r) percentile_cols) \<and>
     (\<exists>s p. add_inss_lines \<lparr>index = columns df, vals = r\<rparr> idx height =
           [PlotLine s (nan2 (-) (Some (real idx)) (nan2 (/) height (Some 2)))
                       (nan2 (+) (Some (real idx)) (nan2 (/) height (Some 2))) black 1.4,
            PlotPoint p idx blue 6])"
    by (intro conjI) (rule cols, rule a, rule b, rule c, rule d)
qed

lemma fold_keep_rows_eq:
  "rows (fold (\<lambda>col d. if col \<in> set (columns d) then keep_rows (q col) d else d) cols df) =
   filter (\<lambda>r. \<forall>col \<in> set cols. col \<in> set (columns df) \<longrightarrow> q col r) (rows df)"
proof (induction cols arbitrary: df)
  case Nil
  then show ?case by simp
next
  case (Cons c cs)
  show ?case
    by (cases "c \<in> set (columns df)") (auto simp: Cons.IH intro: filter_cong)
qed

text \<open>Cleaning keeps exactly the rows that satisfy the guarantee.\<close>

lemma clean_data_rows:
  assumes "clean_data df = Inr d"
  shows "rows d = filter pipeline_row_ok (rows df)"
proof -
  from assms obtain d0 where d0: "dropna_rows NUMERIC_COLUMNS df = Inr d0" and d: "d = validate_ranges d0"
    by (auto simp: clean_data_def split: sum.splits)
  note dr = dropna_rows_Inr[OF d0]
  have cols0: "set NUMERIC_COLUMNS \<subseteq> set (columns d0)" using dr(1,2) by simp
  then have cnt: "Count_Episodios \<in> set (columns d0)"
    unfolding numeric_columns_split by blast
  let ?dur = "[Durestd_Inss_min, Duropt_Inss_min] @ PERCENTILE_COLUMNS"
  have dur: "set ?dur \<subseteq> set (columns d0)"
    using cols0 unfolding numeric_columns_split by blast
  have "rows d = filter (\<lambda>r. num_holds (\<lambda>x. MIN_EPISODIOS \<le> x) (num r Count_Episodios) \<and>
                           num_holds (\<lambda>x. x \<le> MAX_EPISODIOS) (num r Count_Episodios))
                  (filter (\<lambda>r. \<forall>col \<in> set ?dur. col \<in> set (columns d0) \<longrightarrow>
                              num_holds (\<lambda>x. 0 \<le> x) (num r col))
                     (filter (\<lambda>r. list_all (\<lambda>c. num r c \<noteq> None) NUMERIC_COLUMNS) (rows df)))"
    unfolding d validate_ranges_def Let_def
    using cnt by (simp add: fold_keep_columns fold_keep_rows_eq dr(3))
  also have "\<dots> = filter pipeline_row_ok (rows df)"
  proof -
    have "(list_all (\<lambda>c. num r c \<noteq> None) NUMERIC_COLUMNS \<and>
           (\<forall>col \<in> set ?dur. col \<in> set (columns d0) \<longrightarrow> num_holds (\<lambda>x. 0 \<le> x) (num r col)) \<and>
           num_holds (\<lambda>x. MIN_EPISODIOS \<le> x) (num r Count_Episodios) \<and>
           num_holds (\<lambda>x. x \<le> MAX_EPISODIOS) (num r Count_Episodios)) = pipeline_row_ok r" for r
    proof
      assume a: "list_all (\<lambda>c. num r c \<noteq> None) NUMERIC_COLUMNS \<and>
           (\<forall>col \<in> set ?dur. col \<in> set (columns d0) \<longrightarrow> num_holds (\<lambda>x. 0 \<le> x) (num r col)) \<and>
           num_holds (\<lambda>x. MIN_EPISODIOS \<le> x) (num r Count_Episodios) \<and>
           num_holds (\<lambda>x. x \<le> MAX_EPISODIOS) (num r Count_Episodios)"
      then have count: "\<exists>n. num r Count_Episodios = Some n \<and> MIN_EPISODIOS \<le> n \<and> n \<le> MAX_EPISODIOS"
        by (cases "num r Count_Episodios") (simp_all add: num_holds_def)
      have "\<exists>v. num r col = Some v \<and> (col \<noteq> Count_Episodios \<longrightarrow> 0 \<le> v)"
        if c: "col \<in> set NUMERIC_COLUMNS" for col
      proof (cases "col = Count_Episodios")
        case True
        then show ?thesis using count by auto
      next
        case False
        then have m: "col \<in> set ?dur" using c unfolding numeric_columns_split by blast
        then have "num_holds (\<lambda>x. 0 \<le> x) (num r col)" using a dur by blast
        then show ?thesis by (cases "num r col") (simp_all add: num_holds_def)
      qed
      with count show "pipeline_row_ok r" unfolding pipeline_row_ok_def by blast
    next
      assume ok: "pipeline_row_ok r"
      then have numeric: "\<forall>col \<in> set NUMERIC_COLUMNS. \<exists>v. num r col = Some v \<and> (col \<noteq> Count_Episodios \<longrightarrow> 0 \<le> v)"
        unfolding pipeline_row_ok_def by (rule conjunct1)
      from ok have count: "\<exists>n. num r Count_Episodios = Some n \<and> MIN_EPISODIOS \<le> n \<and> n \<le> MAX_EPISODIOS"
        unfolding pipeline_row_ok_def by (rule conjunct2)
      have p: "list_all (\<lambda>c. num r c \<noteq> None) NUMERIC_COLUMNS"
        unfolding list_all_iff using numeric by fastforce
      have q: "\<forall>col \<in> set ?dur. col \<in> set (columns d0) \<longrightarrow> num_holds (\<lambda>x. 0 \<le> x) (num r col)"
      proof (intro ballI impI)
        fix col assume m: "col \<in> set ?dur"
        then have "col \<in> set NUMERIC_COLUMNS" unfolding numeric_columns_split by blast
        moreover have "col \<noteq> Count_Episodios" using m count_not_duration by blast
        ultimately obtain v where "num r col = Some v" "0 \<le> v" using numeric by blast
        then show "num_holds (\<lambda>x. 0 \<le> x) (num r col)" by (simp add: num_holds_def)
      qed
      from count have "num_holds (\<lambda>x. MIN_EPISODIOS \<le> x) (num r Count_Episodios) \<and>
           num_holds (\<lambda>x. x \<le> MAX_EPISODIOS) (num r Count_Episodios)"
        by (auto simp: num_holds_def)
      with p q show "list_all (\<lambda>c. num r c \<noteq> None) NUMERIC_COLUMNS \<and>
           (\<forall>col \<in> set ?dur. col \<in> set (columns d0) \<longrightarrow> num_holds (\<lambda>x. 0 \<le> x) (num r col)) \<and>
           num_holds (\<lambda>x. MIN_EPISODIOS \<le> x) (num r Count_Episodios) \<and>
           num_holds (\<lambda>x. x \<le> MAX_EPISODIOS) (num r Count_Episodios)"
        by blast
    qed
    then show ?thesis by (simp add: conj_commute conj_left_commute cong: conj_cong)
  qed
  finally show ?thesis .
qed

lemma length_rows_sort_data [simp]: "length (rows (sort_data df)) = length (rows df)"
proof -
  have "length (insert_row lt r xs) = Suc (length xs)" for lt r xs
    by (induction xs) simp_all
  then have "length (sort_rows lt rs) = length rs" for lt rs
    unfolding sort_rows_def by (induction rs) simp_all
  then show ?thesis by (simp add: sort_data_def Let_def)
qed

lemmas sheet_defs = rename_cells_def sheet_row_def mk_cells_def source_label_def COLUMN_MAPPING_def
  pipeline_row_ok_def NUMERIC_COLUMNS_def MIN_EPISODIOS_def MAX_EPISODIOS_def

lemma sample_row1:
  "pipeline_row_ok (rename_cells (sheet_row ''Lumbalgia'' ''M'' ''36-45'' ''C001'' 15 30 25 [10, 15, 20, 25, 30, 35]))"
  by (simp add: sheet_defs label_defs)

lemma sample_row2:
  "\<not> pipeline_row_ok (rename_cells (sheet_row ''Cervicalgia'' ''F'' ''26-35'' ''C002'' 8 (- 5) 18 [8, 12, 16, 20, 24, 28]))"
  by (simp add: sheet_defs label_defs)

lemma sample_row3:
  "\<not> pipeline_row_ok (rename_cells (sheet_row ''Tendinitis'' ''M'' ''46-55'' ''C003'' 2000 25 22 [12, 16, 20, 24, 28, 32]))"
  by (simp add: sheet_defs label_defs)

theorem pipeline_rows_complete_and_in_range_witness:
  "\<exists>df r. load_and_process_data sample_sheet = Inr df \<and> rows df = [r] \<and>
       (\<exists>n. num r Count_Episodios = Some n \<and> MIN_EPISODIOS \<le> n \<and> n \<le> MAX_EPISODIOS) \<and>
       (\<exists>vs. present_values \<lparr>index = columns df, vals = r\<rparr>
              (filter (\<lambda>col. col \<in> set (columns df)) percentile_cols) = Inr vs \<and>
           map Some vs = map (num r) percentile_cols)"
proof -
  have valid: "validate_columns sample_sheet"
    by (simp add: validate_columns_def missing_columns_def sample_sheet_def)
  have renamed: "columns (rename_columns sample_sheet) = map snd COLUMN_MAPPING"
    by (simp add: rename_columns_def sample_sheet_def rename_label_def COLUMN_MAPPING_def)
  have present: "filter (\<lambda>c. c \<notin> set (map snd COLUMN_MAPPING)) NUMERIC_COLUMNS = []"
    by (simp add: COLUMN_MAPPING_def NUMERIC_COLUMNS_def)
  obtain d where clean: "clean_data (rename_columns sample_sheet) = Inr d"
    unfolding clean_data_def dropna_rows_def renamed present by simp
  have "rows d = filter pipeline_row_ok (rows (rename_columns sample_sheet))"
    by (rule clean_data_rows[OF clean])
  then have "length (rows d) = 1"
    by (simp add: rename_columns_def sample_sheet_def sample_row1 sample_row2 sample_row3)
  let ?df = "calculate_additional_fields (sort_data d)"
  have load: "load_and_process_data sample_sheet = Inr ?df"
    using valid clean by (simp add: load_and_process_data_def)
  have "length (rows ?df) = 1"
    using \<open>length (rows d) = 1\<close> by simp
  then obtain r where r: "rows ?df = [r]"
    by (cases "rows ?df") simp_all
  then have mem: "r \<in> set (rows ?df)" by simp
  from pipeline_rows_complete_and_in_range[of sample_sheet ?df r 0 None] load mem
  have "(\<exists>n. num r Count_Episodios = Some n \<and> MIN_EPISODIOS \<le> n \<and> n \<le> MAX_EPISODIOS) \<and>
       (\<exists>vs. present_values \<lparr>index = columns ?df, vals = r\<rparr>
              (filter (\<lambda>col. col \<in> set (columns ?df)) percentile_cols) = Inr vs \<and>
           map Some vs = map (num r) percentile_cols)"
    by blast
  with load r show ?thesis by blast
qed

end
